theory Spec2Isabelle
  imports Complex_Main "HOL-Library.Log_Nat"
begin

text \<open>
  The client of \<open>src/lib\<close>: the command builder (\<open>getEvents\<close>, \<open>getData\<close>, \<open>confirm\<close>) and
  the class \<open>Client\<close>, whose handlers run one at a time on the event loop. A handler is a
  function from the state of the client to its next state; the state also records, in
  order, what the handler wrote to the log, handed to the socket and asked of the
  process. The functions keep the names of the source, without the leading underscore.
\<close>

section \<open>Numbers of the runtime\<close>

text \<open>
  The client computes with JavaScript Numbers, that is IEEE 754 binary64 values. A
  Number is modelled by its exact value: a rational for a finite non-zero double and for
  \<open>+0\<close> (\<open>Fin 0\<close>), and one constructor each for \<open>-0\<close>, the two infinities and NaN.
  Every operation computes the exact rational result and rounds it to the nearest
  double, ties to even, as the hardware does.
\<close>

datatype number = NaN | PInf | NInf | NZero | Fin rat

definition inf :: "bool \<Rightarrow> number" where
  "inf neg = (if neg then NInf else PInf)"

definition zero :: "bool \<Rightarrow> number" where
  "zero neg = (if neg then NZero else Fin 0)"

fun negative :: "number \<Rightarrow> bool" where
  "negative NInf = True"
| "negative NZero = True"
| "negative (Fin r) = (r < 0)"
| "negative _ = False"

fun is_inf :: "number \<Rightarrow> bool" where
  "is_inf PInf = True"
| "is_inf NInf = True"
| "is_inf _ = False"

fun val :: "number \<Rightarrow> rat" where
  "val (Fin r) = r"
| "val _ = 0"

fun is_zero :: "number \<Rightarrow> bool" where
  "is_zero NZero = True"
| "is_zero (Fin r) = (r = 0)"
| "is_zero _ = False"

text \<open>\<open>ilog b x\<close> is the integer \<open>e\<close> with \<open>b^e \<le> x < b^(e+1)\<close>, for \<open>x > 0\<close>.\<close>

definition ilog :: "nat \<Rightarrow> rat \<Rightarrow> int" where
  "ilog b x =
     (if 1 \<le> x then int (floorlog b (nat \<lfloor>x\<rfloor>)) - 1
      else - int (floorlog b (nat (\<lceil>1 / x\<rceil> - 1))))"

definition round_half_even :: "rat \<Rightarrow> int" where
  "round_half_even r =
     (let f = \<lfloor>r\<rfloor>; d = r - of_int f
      in if d < 1 / 2 then f
         else if 1 / 2 < d then f + 1
         else if even f then f else f + 1)"

text \<open>
  \<open>fl neg a\<close> rounds the magnitude \<open>a \<ge> 0\<close> with sign \<open>neg\<close> to binary64: 53 significant
  bits, exponent at least \<open>-1022\<close> (below that the spacing stays \<open>2^-1074\<close>: subnormals),
  and infinity once the rounded magnitude reaches \<open>2^1024\<close>.
\<close>

definition fl :: "bool \<Rightarrow> rat \<Rightarrow> number" where
  "fl neg a =
     (if a = 0 then zero neg
      else let e = max (ilog 2 a) (- 1022);
               q = 2 powi (e - 52);
               y = of_int (round_half_even (a / q)) * q
           in if 2 ^ 1024 \<le> y then inf neg
              else if y = 0 then zero neg
              else Fin (if neg then - y else y))"

text \<open>The operator \<open>/\<close> on two Numbers.\<close>

definition js_div :: "number \<Rightarrow> number \<Rightarrow> number" where
  "js_div x y =
     (if x = NaN \<or> y = NaN then NaN
      else if is_inf x then (if is_inf y then NaN else inf (negative x \<noteq> negative y))
      else if is_inf y then zero (negative x \<noteq> negative y)
      else if is_zero y then (if is_zero x then NaN else inf (negative x \<noteq> negative y))
      else if is_zero x then zero (negative x \<noteq> negative y)
      else fl (negative x \<noteq> negative y) (\<bar>val x\<bar> / \<bar>val y\<bar>))"

text \<open>The operator \<open><\<close> on two Numbers: false when either is NaN, and \<open>-0 = +0\<close>.\<close>

fun js_lt :: "number \<Rightarrow> number \<Rightarrow> bool" where
  "js_lt NaN _ = False"
| "js_lt _ NaN = False"
| "js_lt PInf _ = False"
| "js_lt _ NInf = False"
| "js_lt NInf _ = True"
| "js_lt _ PInf = True"
| "js_lt x y = (val x < val y)"

text \<open>
  The text of a Number as \<open>toPrecision(3)\<close> prints it: \<open>NaN\<close>, a signed \<open>Infinity\<close>, or a
  sign, three decimal digits \<open>n\<close> and a decimal exponent \<open>e\<close>, standing for
  \<open>n * 10^(e - 2)\<close> (printed in fixed or exponential notation, which does not change
  the value read back).
\<close>

datatype numeral_text = Text_NaN | Text_Infinity bool | Text_digits bool int int

definition toPrecision3 :: "number \<Rightarrow> numeral_text" where
  "toPrecision3 x =
     (case x of
        NaN \<Rightarrow> Text_NaN
      | PInf \<Rightarrow> Text_Infinity False
      | NInf \<Rightarrow> Text_Infinity True
      | NZero \<Rightarrow> Text_digits False 0 0
      | Fin r \<Rightarrow>
          if r = 0 then Text_digits False 0 0
          else let a = \<bar>r\<bar>; e = ilog 10 a; n = \<lfloor>a / 10 powi (e - 2) + 1 / 2\<rfloor>
               in if n = 1000 then Text_digits (r < 0) 100 (e + 1)
                  else Text_digits (r < 0) n e)"

text \<open>\<open>parseFloat\<close> of such a text: the nearest double to the decimal it spells.\<close>

definition parseFloat :: "numeral_text \<Rightarrow> number" where
  "parseFloat t =
     (case t of
        Text_NaN \<Rightarrow> NaN
      | Text_Infinity neg \<Rightarrow> inf neg
      | Text_digits neg n e \<Rightarrow> fl neg (of_int n * 10 powi (e - 2)))"

text \<open>
  \<open>parseFloat\<close> of a Number argument converts it to its shortest round-trip text and
  reads that back: the same Number, except that \<open>-0\<close> prints as \<open>0\<close> and comes back as
  \<open>+0\<close>.
\<close>

definition parseFloat_number :: "number \<Rightarrow> number" where
  "parseFloat_number x = (if x = NZero then Fin 0 else x)"

section \<open>Values received from the server\<close>

text \<open>
  A property of a parsed message as the client can meet it: a value of the type that the
  typedefs of the source declare for it, \<open>null\<close>, or \<open>undefined\<close> (the property is
  absent). A message with a property of yet another type is outside this model, with one
  exception: in \<open>events\<close> and \<open>data\<close>, which \<open>_onMessage\<close> tests with \<open>typeof\<close>, and in
  \<open>message\<close>, which it tests with \<open>===\<close>, \<open>Undefined\<close> also stands for a string, a
  number or a boolean, which those tests do not tell from an absent property.
\<close>

datatype 'a js = Undefined | Null | Val 'a

type_synonym EventId = string

type_synonym SetId = string

type_synonym Set = "number list"

text \<open>\<open>typeof v === 'object'\<close>: true of objects, arrays and \<open>null\<close>.\<close>

fun typeof_object :: "'a js \<Rightarrow> bool" where
  "typeof_object Undefined = False"
| "typeof_object Null = True"
| "typeof_object (Val _) = True"

text \<open>\<open>ToNumber\<close>, applied by \<open>/\<close> and \<open><\<close> to an operand that is not a Number.\<close>

fun ToNumber :: "number js \<Rightarrow> number" where
  "ToNumber Undefined = NaN"
| "ToNumber Null = Fin 0"
| "ToNumber (Val x) = x"

text \<open>
  The parsed message, by the properties the client reads (typedefs \<open>Message\<close>, \<open>Data\<close>
  and \<open>Events\<close>). \<open>events\<close> holds \<open>Object.keys\<close> of the \<open>events\<close> object, in the order
  \<open>Object.keys\<close> lists them; \<open>data\<close> holds the two series.
\<close>

record Data_sets =
  set1 :: "Set js"
  set2 :: "Set js"

record Message =
  reqId :: "string js"
  minDiv :: "number js"
  maxDiv :: "number js"
  events :: "EventId list js"
  data :: "Data_sets js"
  message :: "string js"

text \<open>
  What \<open>JSON.parse\<close> makes of a text: it throws a \<open>SyntaxError\<close>, or returns \<open>null\<close>, or
  returns a value whose properties are read as a \<open>Message\<close> (a number, a string, a
  boolean or an array has none of them).
\<close>

datatype parsed = Parse_error | Parsed_null | Parsed Message

datatype error = SyntaxError | TypeError

text \<open>
  The two services of the runtime the client calls and this repository does not
  implement: \<open>JSON.parse\<close>, and \<open>uuid()\<close>, whose \<open>k\<close>-th call returns \<open>uuid rt k\<close>.
\<close>

record runtime =
  JSON_parse :: "string \<Rightarrow> parsed"
  uuid :: "nat \<Rightarrow> string"

section \<open>Commands\<close>

text \<open>
  The value read from \<open>this._events[reqId]\<close>: \<open>undefined\<close>, the event id stored under
  that key, or a member that the object literal inherits from \<open>Object.prototype\<close>.
\<close>

datatype event_ref = No_event | Event EventId | Inherited string

datatype command =
    Cmd_getEvents
  | Cmd_getData EventId
  | Cmd_confirm event_ref SetId nat number

definition getEvents :: command where
  "getEvents = Cmd_getEvents"

definition getData :: "EventId \<Rightarrow> command" where
  "getData eventId = Cmd_getData eventId"

definition confirm :: "event_ref \<Rightarrow> SetId \<Rightarrow> nat \<Rightarrow> number \<Rightarrow> command" where
  "confirm eventId setId n dv = Cmd_confirm eventId setId n dv"

section \<open>The client\<close>

text \<open>
  What the client does to the outside, in order: a line of the log, a text handed to
  the socket (the command and the \<open>_reqId\<close> it is stamped with, before
  \<open>JSON.stringify\<close>), the timer being cleared, the socket being closed, the process
  exiting with a code.
\<close>

datatype effect =
    Log_in string
  | Log_out command string
  | Ws_send command string
  | Set_interval
  | Clear_interval
  | Ws_close
  | Process_exit nat

record Client =
  this_pullInterval :: bool
  this_minDiv :: "number js"
  this_maxDiv :: "number js"
  this_events :: "string \<rightharpoonup> EventId"
  uuid_calls :: nat
  timer_active :: bool
  exited :: "nat option"
  effects :: "effect list"

text \<open>The state the constructor leaves, before \<open>start\<close>.\<close>

definition new_Client :: Client where
  "new_Client =
     \<lparr> this_pullInterval = False, this_minDiv = Null, this_maxDiv = Null,
       this_events = Map.empty, uuid_calls = 0, timer_active = False,
       exited = None, effects = [] \<rparr>"

text \<open>
  \<open>this._events\<close> is an object literal: it inherits the members of
  \<open>Object.prototype\<close>. Reading a key returns the own property if there is one, else the
  inherited member, else \<open>undefined\<close>; \<open>__proto__\<close> is an accessor, never an own
  property, and assigning a string to it changes nothing.
\<close>

definition Object_prototype :: "string list" where
  "Object_prototype =
     [''constructor'', ''__defineGetter__'', ''__defineSetter__'', ''hasOwnProperty'',
      ''__lookupGetter__'', ''__lookupSetter__'', ''isPrototypeOf'',
      ''propertyIsEnumerable'', ''toString'', ''valueOf'', ''__proto__'',
      ''toLocaleString'']"

definition get_property :: "(string \<rightharpoonup> EventId) \<Rightarrow> string \<Rightarrow> event_ref" where
  "get_property obj key =
     (if key = ''__proto__'' then Inherited key
      else case obj key of
             Some v \<Rightarrow> Event v
           | None \<Rightarrow> if key \<in> set Object_prototype then Inherited key else No_event)"

definition set_property :: "(string \<rightharpoonup> EventId) \<Rightarrow> string \<Rightarrow> EventId \<Rightarrow> (string \<rightharpoonup> EventId)" where
  "set_property obj key v = (if key = ''__proto__'' then obj else obj(key \<mapsto> v))"

text \<open>The property key a request id is converted to.\<close>

fun property_key :: "string js \<Rightarrow> string" where
  "property_key Undefined = ''undefined''"
| "property_key Null = ''null''"
| "property_key (Val k) = k"

text \<open>\<open>_send(command, reqId = uuid())\<close>: a missing request id is drawn from \<open>uuid()\<close>.\<close>

definition send :: "runtime \<Rightarrow> command \<Rightarrow> string option \<Rightarrow> Client \<Rightarrow> Client" where
  "send rt command reqId_opt s =
     (case reqId_opt of
        Some r \<Rightarrow> s\<lparr>effects := effects s @ [Log_out command r, Ws_send command r]\<rparr>
      | None \<Rightarrow>
          let r = uuid rt (uuid_calls s)
          in s\<lparr>uuid_calls := Suc (uuid_calls s),
                effects := effects s @ [Log_out command r, Ws_send command r]\<rparr>)"

text \<open>
  \<open>stop(code)\<close>: \<open>clearInterval\<close>, \<open>this._ws.close()\<close>, \<open>process.exit(code)\<close>. The last
  call does not return: the process is gone, which \<open>exited\<close> records.
\<close>

definition stop :: "nat \<Rightarrow> Client \<Rightarrow> Client" where
  "stop code s =
     s\<lparr>timer_active := False,
       effects := effects s @ [Clear_interval, Ws_close, Process_exit code],
       exited := Some code\<rparr>"

definition onOpen :: "runtime \<Rightarrow> Client \<Rightarrow> Client" where
  "onOpen rt s =
     (let s1 = send rt getEvents None s
      in s1\<lparr>this_pullInterval := True, timer_active := True,
            effects := effects s1 @ [Set_interval]\<rparr>)"

text \<open>A tick of the timer armed by \<open>_onOpen\<close>: \<open>this._send(Commands.getEvents())\<close>.\<close>

definition onInterval :: "runtime \<Rightarrow> Client \<Rightarrow> Client" where
  "onInterval rt s = send rt getEvents None s"

text \<open>The callback of \<open>forEach\<close> in \<open>_onEventsHandler\<close>, over the keys in order.\<close>

fun forEach_eventId :: "runtime \<Rightarrow> EventId list \<Rightarrow> Client \<Rightarrow> Client" where
  "forEach_eventId rt [] s = s"
| "forEach_eventId rt (eventId # rest) s =
     (let r = uuid rt (uuid_calls s);
          s1 = s\<lparr>uuid_calls := Suc (uuid_calls s)\<rparr>;
          s2 = s1\<lparr>this_events := set_property (this_events s1) r eventId\<rparr>
      in forEach_eventId rt rest (send rt (getData eventId) (Some r) s2))"

text \<open>\<open>Object.keys\<close> throws a \<open>TypeError\<close> on \<open>null\<close> and on \<open>undefined\<close>.\<close>

definition onEventsHandler :: "runtime \<Rightarrow> Message \<Rightarrow> Client \<Rightarrow> (error \<times> Client) + Client" where
  "onEventsHandler rt d s =
     (let s1 = s\<lparr>this_events := Map.empty, this_minDiv := minDiv d, this_maxDiv := maxDiv d\<rparr>
      in case events d of
           Val keys \<Rightarrow> Inr (forEach_eventId rt keys s1)
         | _ \<Rightarrow> Inl (TypeError, s1))"

text \<open>An element read by index: \<open>undefined\<close> beyond the end of the array.\<close>

definition element :: "Set \<Rightarrow> nat \<Rightarrow> number js" where
  "element xs n = (if n < length xs then Val (xs ! n) else Undefined)"

text \<open>The value of \<open>div\<close> in \<open>_processSet\<close>, from the two elements read.\<close>

definition ratio :: "number js \<Rightarrow> number js \<Rightarrow> number" where
  "ratio a b =
     parseFloat (toPrecision3 (parseFloat_number (js_div (ToNumber a) (ToNumber b))))"

text \<open>
  The body of \<open>for (let n in set1)\<close> over the indices of the array \<open>set1\<close>, in order.
  Reading \<open>set2[n]\<close> throws a \<open>TypeError\<close> when \<open>set2\<close> is \<open>null\<close> or \<open>undefined\<close>.
\<close>

fun for_in :: "runtime \<Rightarrow> Set \<Rightarrow> Set js \<Rightarrow> SetId \<Rightarrow> event_ref \<Rightarrow> nat list \<Rightarrow> Client
    \<Rightarrow> (error \<times> Client) + Client" where
  "for_in rt xs set2' setId eventId [] s = Inr s"
| "for_in rt xs set2' setId eventId (n # ns) s =
     (case set2' of
        Val ys \<Rightarrow>
          let dv = ratio (element xs n) (element ys n)
          in for_in rt xs set2' setId eventId ns
               (if js_lt (ToNumber (this_minDiv s)) dv \<and> js_lt dv (ToNumber (this_maxDiv s))
                then send rt (confirm eventId setId n dv) None s
                else s)
      | _ \<Rightarrow> Inl (TypeError, s))"

text \<open>\<open>for ... in\<close> visits nothing when \<open>set1\<close> is \<open>null\<close> or \<open>undefined\<close>.\<close>

definition processSet :: "runtime \<Rightarrow> Set js \<Rightarrow> Set js \<Rightarrow> SetId \<Rightarrow> event_ref \<Rightarrow> Client
    \<Rightarrow> (error \<times> Client) + Client" where
  "processSet rt set1' set2' setId eventId s =
     (case set1' of
        Val xs \<Rightarrow> for_in rt xs set2' setId eventId [0..<length xs] s
      | _ \<Rightarrow> Inr s)"

text \<open>
  Destructuring \<open>data.data\<close> throws a \<open>TypeError\<close> when it is \<open>null\<close> (\<open>_onMessage\<close> calls
  this handler with an object, an array or \<open>null\<close> there, with nothing else); the second
  \<open>_processSet\<close> runs only if the first returns.
\<close>

definition onDataHandler :: "runtime \<Rightarrow> Message \<Rightarrow> Client \<Rightarrow> (error \<times> Client) + Client" where
  "onDataHandler rt d s =
     (case data d of
        Val sets \<Rightarrow>
          let eventId = get_property (this_events s) (property_key (reqId d))
          in (case processSet rt (set1 sets) (set2 sets) ''set1'' eventId s of
                Inl e \<Rightarrow> Inl e
              | Inr s1 \<Rightarrow> processSet rt (set2 sets) (set1 sets) ''set2'' eventId s1)
      | _ \<Rightarrow> Inl (TypeError, s))"

definition onLoseHandler :: "Client \<Rightarrow> Client" where
  "onLoseHandler s = stop 1 s"

definition onWinHandler :: "Client \<Rightarrow> Client" where
  "onWinHandler s = stop 0 s"

text \<open>
  \<open>_onMessage\<close>: the log line, \<open>JSON.parse\<close>, then the first case of the \<open>switch\<close> that
  holds. Reading \<open>data.events\<close> throws a \<open>TypeError\<close> when the text parsed to \<open>null\<close>. No
  handler of the client catches an exception: \<open>Inl\<close> carries it to the caller, with the
  state at the throw.
\<close>

definition onMessage :: "runtime \<Rightarrow> string \<Rightarrow> Client \<Rightarrow> (error \<times> Client) + Client" where
  "onMessage rt msg s =
     (let s1 = s\<lparr>effects := effects s @ [Log_in msg]\<rparr>
      in case JSON_parse rt msg of
           Parse_error \<Rightarrow> Inl (SyntaxError, s1)
         | Parsed_null \<Rightarrow> Inl (TypeError, s1)
         | Parsed d \<Rightarrow>
             if typeof_object (events d) then onEventsHandler rt d s1
             else if typeof_object (data d) then onDataHandler rt d s1
             else if message d = Val ''Lose'' then Inr (onLoseHandler s1)
             else if message d = Val ''Win'' then Inr (onWinHandler s1)
             else Inr s1)"

text \<open>
  The socket delivering the texts of a list to \<open>_onMessage\<close>, one after the other:
  nothing is delivered to a process that has exited, and an exception that leaves
  \<open>_onMessage\<close> ends the delivery.
\<close>

fun deliver :: "runtime \<Rightarrow> string list \<Rightarrow> Client \<Rightarrow> (error \<times> Client) + Client" where
  "deliver rt [] s = Inr s"
| "deliver rt (msg # msgs) s =
     (if exited s \<noteq> None then Inr s
      else case onMessage rt msg s of
             Inl e \<Rightarrow> Inl e
           | Inr s1 \<Rightarrow> deliver rt msgs s1)"

text \<open>The commands handed to the socket, in order, with their request ids.\<close>

fun sent :: "effect list \<Rightarrow> (command \<times> string) list" where
  "sent [] = []"
| "sent (Ws_send c r # es) = (c, r) # sent es"
| "sent (_ # es) = sent es"

section \<open>Notions used to state the properties\<close>

text \<open>The commands handed to the socket while the client went from \<open>s\<close> to \<open>s'\<close>.\<close>

definition emitted :: "Client \<Rightarrow> Client \<Rightarrow> (command \<times> string) list" where
  "emitted s s' = drop (length (sent (effects s))) (sent (effects s'))"

text \<open>The test of \<open>_processSet\<close> on a value of \<open>div\<close>, with the bounds of a state.\<close>

definition inside :: "Client \<Rightarrow> number \<Rightarrow> bool" where
  "inside s dv = (js_lt (ToNumber (this_minDiv s)) dv \<and> js_lt dv (ToNumber (this_maxDiv s)))"

text \<open>The indices of a list at which that test holds.\<close>

definition qualifying :: "Client \<Rightarrow> Set \<Rightarrow> Set \<Rightarrow> nat list \<Rightarrow> nat list" where
  "qualifying s xs ys ns = filter (\<lambda>n. inside s (ratio (element xs n) (element ys n))) ns"

text \<open>
  One \<open>confirm\<close> command for each index of \<open>q\<close>, in order, stamped with the results
  of the calls of \<open>uuid()\<close> from the \<open>k\<close>-th on.
\<close>

definition confirms :: "runtime \<Rightarrow> event_ref \<Rightarrow> SetId \<Rightarrow> Set \<Rightarrow> Set \<Rightarrow> nat list \<Rightarrow> nat
    \<Rightarrow> (command \<times> string) list" where
  "confirms rt eventId setId xs ys q k =
     zip (map (\<lambda>n. confirm eventId setId n (ratio (element xs n) (element ys n))) q)
         (map (uuid rt) [k..<k + length q])"

text \<open>Two states that differ at most in the log, the socket and the calls of \<open>uuid()\<close>.\<close>

definition same_client :: "Client \<Rightarrow> Client \<Rightarrow> bool" where
  "same_client s s' =
     (this_pullInterval s' = this_pullInterval s \<and> this_minDiv s' = this_minDiv s \<and>
      this_maxDiv s' = this_maxDiv s \<and> this_events s' = this_events s \<and>
      timer_active s' = timer_active s \<and> exited s' = exited s)"

text \<open>
  Rounding half away from zero to three decimal places, as the specification words
  the rounding of the ratio.
\<close>

definition spec_round_3_decimals :: "rat \<Rightarrow> rat" where
  "spec_round_3_decimals x = sgn x * of_int \<lfloor>\<bar>x\<bar> * 1000 + 1 / 2\<rfloor> / 1000"

section \<open>A runtime and messages to run the client on\<close>

definition demo_uuids :: "string list" where
  "demo_uuids =
     [''6ec0bd7f-11c0-43da-975e-2a8ad9ebae0b'', ''110ec58a-a0f2-4ac4-8393-c866d813b8d1'',
      ''7d444840-9dc0-41d1-b245-5ffdce74fad2'', ''e902893a-9d22-4c7e-a7b8-d6e313b71d9f'',
      ''1b4e28ba-2fa1-41d2-883f-0016d3cca427'']"

definition events_text :: string where
  \<open>events_text = ''{"minDiv":1,"maxDiv":2,"events":{"e1":{},"e2":{}}}''\<close>

definition data_text :: string where
  \<open>data_text =
     ''{"_reqId":"6ec0bd7f-11c0-43da-975e-2a8ad9ebae0b","data":{"set1":[10,20],"set2":[5,18]}}''\<close>

definition longer_text :: string where
  \<open>longer_text =
     ''{"_reqId":"6ec0bd7f-11c0-43da-975e-2a8ad9ebae0b","data":{"set1":[10,20,3],"set2":[5,18]}}''\<close>

definition null_events_text :: string where
  \<open>null_events_text = ''{"minDiv":1,"maxDiv":2,"events":null}''\<close>

definition win_text :: string where
  \<open>win_text = ''{"message":"Win"}''\<close>

definition lose_text :: string where
  \<open>lose_text = ''{"message":"Lose"}''\<close>

definition broken_text :: string where
  \<open>broken_text = ''{"minDiv":''\<close>

text \<open>What \<open>JSON.parse\<close> returns on these texts, and the error it throws on the last.\<close>

definition demo_parse :: "(string \<times> parsed) list" where
  "demo_parse =
     [(events_text,
        Parsed \<lparr>reqId = Undefined, minDiv = Val (Fin 1), maxDiv = Val (Fin 2),
                events = Val [''e1'', ''e2''], data = Undefined, message = Undefined\<rparr>),
      (data_text,
        Parsed \<lparr>reqId = Val (demo_uuids ! 0), minDiv = Undefined, maxDiv = Undefined,
                events = Undefined,
                data = Val \<lparr>set1 = Val [Fin 10, Fin 20], set2 = Val [Fin 5, Fin 18]\<rparr>,
                message = Undefined\<rparr>),
      (longer_text,
        Parsed \<lparr>reqId = Val (demo_uuids ! 0), minDiv = Undefined, maxDiv = Undefined,
                events = Undefined,
                data = Val \<lparr>set1 = Val [Fin 10, Fin 20, Fin 3], set2 = Val [Fin 5, Fin 18]\<rparr>,
                message = Undefined\<rparr>),
      (null_events_text,
        Parsed \<lparr>reqId = Undefined, minDiv = Val (Fin 1), maxDiv = Val (Fin 2),
                events = Null, data = Undefined, message = Undefined\<rparr>),
      (win_text,
        Parsed \<lparr>reqId = Undefined, minDiv = Undefined, maxDiv = Undefined,
                events = Undefined, data = Undefined, message = Val ''Win''\<rparr>),
      (lose_text,
        Parsed \<lparr>reqId = Undefined, minDiv = Undefined, maxDiv = Undefined,
                events = Undefined, data = Undefined, message = Val ''Lose''\<rparr>),
      (broken_text, Parse_error)]"

text \<open>
  A runtime: \<open>JSON.parse\<close> as above on the texts listed (no other text is given to
  it), and a \<open>uuid()\<close> that returns the identifiers of \<open>demo_uuids\<close> in turn.
\<close>

definition demo :: runtime where
  "demo =
     \<lparr> JSON_parse = (\<lambda>t. case map_of demo_parse t of Some p \<Rightarrow> p | None \<Rightarrow> Parse_error),
       uuid = (\<lambda>k. demo_uuids ! (k mod length demo_uuids)) \<rparr>"

text \<open>The double nearest to \<open>1.11\<close>, the one nearest to \<open>1.111\<close>, and the one nearest to \<open>0.9\<close>.\<close>

definition double_1_11 :: number where
  "double_1_11 = Fin (4998995586381251 / 4503599627370496)"

definition double_1_111 :: number where
  "double_1_111 = Fin (5003499186008621 / 4503599627370496)"

definition double_0_9 :: number where
  "double_0_9 = Fin (8106479329266893 / 9007199254740992)"

text \<open>A client with the bounds \<open>(1.0, 2.0)\<close> and no tracked request.\<close>

definition bounds_1_2 :: Client where
  "bounds_1_2 = new_Client\<lparr>this_minDiv := Val (Fin 1), this_maxDiv := Val (Fin 2)\<rparr>"

text \<open>The state a run ends in, and the exception that ended it, if one did.\<close>

definition final :: "(error \<times> Client) + Client \<Rightarrow> Client" where
  "final r = (case r of Inl (e, s) \<Rightarrow> s | Inr s \<Rightarrow> s)"

definition thrown :: "(error \<times> Client) + Client \<Rightarrow> error option" where
  "thrown r = (case r of Inl (e, s) \<Rightarrow> Some e | Inr s \<Rightarrow> None)"

text \<open>A client with the bounds \<open>(1.11, 2.0)\<close> and no tracked request.\<close>

definition bounds_111_2 :: Client where
  "bounds_111_2 = new_Client\<lparr>this_minDiv := Val double_1_11, this_maxDiv := Val (Fin 2)\<rparr>"

section \<open>Rounding\<close>

lemma ilog_lower:
  assumes "1 < b" "0 < x"
  shows "of_nat b powi ilog b x \<le> x"
proof (cases "1 \<le> x")
  case True
  define n where "n = nat \<lfloor>x\<rfloor>"
  have n: "0 < n" using True by (simp add: n_def)
  have "b ^ (floorlog b n - 1) \<le> n" using floorlog_bounds[OF n assms(1)] by simp
  moreover have "1 \<le> floorlog b n" using n assms(1) by (simp add: floorlog_def)
  ultimately have "(of_nat b :: rat) powi (int (floorlog b n) - 1) \<le> of_nat n"
    by (metis of_nat_le_iff of_nat_power power_int_of_nat of_nat_diff of_nat_1)
  also have "(of_nat n :: rat) \<le> x" using True by (simp add: n_def)
  finally show ?thesis using True by (simp add: ilog_def n_def)
next
  case False
  then have x1: "x < 1" by simp
  define m where "m = nat (\<lceil>1 / x\<rceil> - 1)"
  define k where "k = floorlog b m"
  have c: "1 < 1 / x" using x1 assms(2) by simp
  then have c2: "2 \<le> \<lceil>1 / x\<rceil>" by linarith
  then have m: "0 < m" by (simp add: m_def)
  have "m < b ^ k" using floorlog_bounds[OF m assms(1)] by (simp add: k_def)
  then have "int m + 1 \<le> int (b ^ k)" by linarith
  moreover have "int m + 1 = \<lceil>1 / x\<rceil>" unfolding m_def using c2 by linarith
  ultimately have "\<lceil>1 / x\<rceil> \<le> int (b ^ k)" by simp
  then have "1 / x \<le> of_int (int (b ^ k))" by (simp add: ceiling_le_iff)
  then have "1 / x \<le> (of_nat b :: rat) ^ k" by simp
  moreover have bk: "0 < (of_nat b :: rat) ^ k" using assms(1) by simp
  ultimately have "1 / (of_nat b :: rat) ^ k \<le> x"
    using assms(2) by (simp add: field_simps)
  then have "(of_nat b :: rat) powi (- int k) \<le> x"
    by (simp add: power_int_minus_divide)
  then show ?thesis using False by (simp add: ilog_def m_def k_def)
qed

lemma ilog_upper:
  assumes "1 < b" "0 < x"
  shows "x < of_nat b powi (ilog b x + 1)"
proof (cases "1 \<le> x")
  case True
  define n where "n = nat \<lfloor>x\<rfloor>"
  have n: "0 < n" using True by (simp add: n_def)
  have "n < b ^ floorlog b n" using floorlog_bounds[OF n assms(1)] by simp
  then have "int n + 1 \<le> int (b ^ floorlog b n)" by linarith
  moreover have "x < of_int (int n + 1)" using True by (simp add: n_def) linarith
  ultimately have "x < of_int (int (b ^ floorlog b n))"
    by (meson less_le_trans of_int_le_iff)
  then have "x < (of_nat b :: rat) ^ floorlog b n" by simp
  then show ?thesis using True by (simp add: ilog_def n_def)
next
  case False
  then have x1: "x < 1" by simp
  define m where "m = nat (\<lceil>1 / x\<rceil> - 1)"
  define k where "k = floorlog b m"
  have c: "1 < 1 / x" using x1 assms(2) by simp
  then have c2: "2 \<le> \<lceil>1 / x\<rceil>" by linarith
  then have m: "0 < m" by (simp add: m_def)
  have k1: "1 \<le> k" using m assms(1) by (simp add: floorlog_def k_def)
  have "b ^ (k - 1) \<le> m" using floorlog_bounds[OF m assms(1)] by (simp add: k_def)
  moreover have "int m = \<lceil>1 / x\<rceil> - 1" unfolding m_def using c2 by linarith
  ultimately have "int (b ^ (k - 1)) \<le> \<lceil>1 / x\<rceil> - 1" by linarith
  moreover have "of_int (\<lceil>1 / x\<rceil> - 1) < 1 / x" by linarith
  ultimately have "of_int (int (b ^ (k - 1))) < 1 / x"
    by (meson le_less_trans of_int_le_iff)
  then have lt: "(of_nat b :: rat) ^ (k - 1) < 1 / x" by simp
  have bk: "0 < (of_nat b :: rat) ^ (k - 1)" using assms(1) by simp
  have "x < 1 / (of_nat b :: rat) ^ (k - 1)"
    using lt bk assms(2) by (simp add: field_simps)
  also have "1 / (of_nat b :: rat) ^ (k - 1) = (of_nat b :: rat) powi (- int (k - 1))"
    by (simp add: power_int_minus_divide)
  also have "- int (k - 1) = - int k + 1" using k1 by simp
  finally show ?thesis using False by (simp add: ilog_def m_def k_def)
qed

lemma ilog_eqI:
  assumes "1 < b" "of_nat b powi e \<le> x" "x < of_nat b powi (e + 1)"
  shows "ilog b x = e"
proof -
  have b1: "1 < (of_nat b :: rat)" using assms(1) by simp
  have "0 < (of_nat b :: rat) powi e" using assms(1) by (simp add: zero_less_power_int)
  then have x: "0 < x" using assms(2) by simp
  note lo = ilog_lower[OF assms(1) x] and hi = ilog_upper[OF assms(1) x]
  have "\<not> ilog b x < e"
  proof
    assume "ilog b x < e"
    then have "ilog b x + 1 \<le> e" by simp
    then have "(of_nat b :: rat) powi (ilog b x + 1) \<le> of_nat b powi e"
      using b1 by (intro power_int_increasing) simp_all
    with hi assms(2) show False by simp
  qed
  moreover have "\<not> e < ilog b x"
  proof
    assume "e < ilog b x"
    then have "e + 1 \<le> ilog b x" by simp
    then have "(of_nat b :: rat) powi (e + 1) \<le> of_nat b powi ilog b x"
      using b1 by (intro power_int_increasing) simp_all
    with lo assms(3) show False by simp
  qed
  ultimately show ?thesis by simp
qed

lemma round_half_even_eqI:
  assumes "\<bar>r - of_int m\<bar> < 1 / 2"
  shows "round_half_even r = m"
proof -
  have "\<lfloor>r\<rfloor> = m \<or> \<lfloor>r\<rfloor> = m - 1" using assms by linarith
  then show ?thesis
  proof
    assume f: "\<lfloor>r\<rfloor> = m"
    then have "r - of_int \<lfloor>r\<rfloor> < 1 / 2" using assms by linarith
    then show ?thesis using f by (simp add: round_half_even_def Let_def)
  next
    assume f: "\<lfloor>r\<rfloor> = m - 1"
    then have "1 / 2 < r - of_int \<lfloor>r\<rfloor>" using assms by linarith
    then show ?thesis using f by (simp add: round_half_even_def Let_def)
  qed
qed

lemma fl_eqI:
  assumes "2 powi e \<le> a" "a < 2 powi (e + 1)" "- 1022 \<le> e"
    and "\<bar>a / 2 powi (e - 52) - of_int m\<bar> < 1 / 2"
    and "y = of_int m * 2 powi (e - 52)" "y < 2 ^ 1024" "y \<noteq> 0"
  shows "fl neg a = Fin (if neg then - y else y)"
proof -
  have "ilog 2 a = e" using assms(1,2) by (intro ilog_eqI) simp_all
  moreover have "0 < (2::rat) powi e" by (simp add: zero_less_power_int)
  then have "a \<noteq> 0" using assms(1) by linarith
  ultimately show ?thesis
    using assms(3,5,6,7) round_half_even_eqI[OF assms(4)]
    by (simp add: fl_def Let_def max_def)
qed

lemma toPrecision3_eqI:
  assumes "10 powi e \<le> \<bar>r\<bar>" "\<bar>r\<bar> < 10 powi (e + 1)"
    and "of_int n - 1 / 2 \<le> \<bar>r\<bar> / 10 powi (e - 2)" "\<bar>r\<bar> / 10 powi (e - 2) < of_int n + 1 / 2"
    and "n \<noteq> 1000"
  shows "toPrecision3 (Fin r) = Text_digits (r < 0) n e"
proof -
  have "ilog 10 \<bar>r\<bar> = e" using assms(1,2) by (intro ilog_eqI) simp_all
  moreover have "0 < (10::rat) powi e" by (simp add: zero_less_power_int)
  then have "r \<noteq> 0" using assms(1) by linarith
  moreover have "\<lfloor>\<bar>r\<bar> / 10 powi (e - 2) + 1 / 2\<rfloor> = n"
    using assms(3,4) by (intro floor_unique) simp_all
  ultimately show ?thesis using assms(5) by (simp add: toPrecision3_def Let_def)
qed

lemma fl_pos:
  assumes "2 powi e \<le> a" "a < 2 powi (e + 1)" "- 1022 \<le> e"
    and "\<bar>a / 2 powi (e - 52) - of_int m\<bar> < 1 / 2"
    and "y = of_int m * 2 powi (e - 52)" "y < 2 ^ 1024" "y \<noteq> 0"
  shows "fl False a = Fin y"
  using fl_eqI[OF assms, of False] by simp

lemma fl_10_9: "fl False (10 / 9) = Fin (5003999585967218 / 4503599627370496)"
  by (rule fl_pos[of 0 _ 5003999585967218]) simp_all

lemma fl_1_11: "fl False (111 / 100) = double_1_11"
  unfolding double_1_11_def by (rule fl_pos[of 0 _ 4998995586381251]) simp_all

lemma fl_1_111: "fl False (1111 / 1000) = double_1_111"
  unfolding double_1_111_def by (rule fl_pos[of 0 _ 5003499186008621]) simp_all

lemma fl_0_9: "fl False (9 / 10) = double_0_9"
  unfolding double_0_9_def by (rule fl_pos[of "- 1" _ 8106479329266893]) simp_all

lemma fl_2: "fl False 2 = Fin 2"
  by (rule fl_pos[of 1 _ 4503599627370496]) simp_all

lemma fl_half: "fl False (1 / 2) = Fin (1 / 2)"
  by (rule fl_pos[of "- 1" _ 4503599627370496]) simp_all

lemma toPrecision3_pos:
  assumes "10 powi e \<le> r" "r < 10 powi (e + 1)"
    and "of_int n - 1 / 2 \<le> r / 10 powi (e - 2)" "r / 10 powi (e - 2) < of_int n + 1 / 2"
    and "n \<noteq> 1000"
  shows "toPrecision3 (Fin r) = Text_digits False n e"
proof -
  have "0 < (10::rat) powi e" by (simp add: zero_less_power_int)
  then have r: "0 < r" using assms(1) by linarith
  then have "\<bar>r\<bar> = r" by simp
  then show ?thesis using toPrecision3_eqI[of e r n] assms r by simp
qed

lemma ratio_20_18: "ratio (Val (Fin 20)) (Val (Fin 18)) = double_1_11"
proof -
  have "toPrecision3 (Fin (5003999585967218 / 4503599627370496)) = Text_digits False 111 0"
    by (rule toPrecision3_pos) simp_all
  then show ?thesis
    using fl_10_9 fl_1_11
    by (simp add: ratio_def js_div_def parseFloat_def parseFloat_number_def)
qed

lemma ratio_10_5: "ratio (Val (Fin 10)) (Val (Fin 5)) = Fin 2"
proof -
  have "toPrecision3 (Fin 2) = Text_digits False 200 0"
    by (rule toPrecision3_pos) simp_all
  then show ?thesis
    using fl_2 by (simp add: ratio_def js_div_def parseFloat_def parseFloat_number_def)
qed

lemma ratio_5_10: "ratio (Val (Fin 5)) (Val (Fin 10)) = Fin (1 / 2)"
proof -
  have "toPrecision3 (Fin (1 / 2)) = Text_digits False 500 (- 1)"
    by (rule toPrecision3_pos) simp_all
  then show ?thesis
    using fl_half by (simp add: ratio_def js_div_def parseFloat_def parseFloat_number_def)
qed

lemma ratio_18_20: "ratio (Val (Fin 18)) (Val (Fin 20)) = double_0_9"
proof -
  have "toPrecision3 (Fin (8106479329266893 / 9007199254740992)) = Text_digits False 900 (- 1)"
    by (rule toPrecision3_pos) simp_all
  then show ?thesis
    using fl_0_9
    by (simp add: ratio_def js_div_def parseFloat_def parseFloat_number_def double_0_9_def)
qed

section \<open>The runtime of the examples\<close>

lemma demo_parse_simps:
  "JSON_parse demo events_text =
     Parsed \<lparr>reqId = Undefined, minDiv = Val (Fin 1), maxDiv = Val (Fin 2),
             events = Val [''e1'', ''e2''], data = Undefined, message = Undefined\<rparr>"
  "JSON_parse demo data_text =
     Parsed \<lparr>reqId = Val (demo_uuids ! 0), minDiv = Undefined, maxDiv = Undefined,
             events = Undefined,
             data = Val \<lparr>set1 = Val [Fin 10, Fin 20], set2 = Val [Fin 5, Fin 18]\<rparr>,
             message = Undefined\<rparr>"
  "JSON_parse demo longer_text =
     Parsed \<lparr>reqId = Val (demo_uuids ! 0), minDiv = Undefined, maxDiv = Undefined,
             events = Undefined,
             data = Val \<lparr>set1 = Val [Fin 10, Fin 20, Fin 3], set2 = Val [Fin 5, Fin 18]\<rparr>,
             message = Undefined\<rparr>"
  "JSON_parse demo null_events_text =
     Parsed \<lparr>reqId = Undefined, minDiv = Val (Fin 1), maxDiv = Val (Fin 2),
             events = Null, data = Undefined, message = Undefined\<rparr>"
  "JSON_parse demo win_text =
     Parsed \<lparr>reqId = Undefined, minDiv = Undefined, maxDiv = Undefined,
             events = Undefined, data = Undefined, message = Val ''Win''\<rparr>"
  "JSON_parse demo lose_text =
     Parsed \<lparr>reqId = Undefined, minDiv = Undefined, maxDiv = Undefined,
             events = Undefined, data = Undefined, message = Val ''Lose''\<rparr>"
  "JSON_parse demo broken_text = Parse_error"
  by (simp_all add: demo_def demo_parse_def events_text_def data_text_def longer_text_def
      null_events_text_def win_text_def lose_text_def broken_text_def)

lemma demo_uuid_simps:
  "uuid demo 0 = ''6ec0bd7f-11c0-43da-975e-2a8ad9ebae0b''"
  "uuid demo (Suc 0) = ''110ec58a-a0f2-4ac4-8393-c866d813b8d1''"
  "uuid demo (Suc (Suc 0)) = ''7d444840-9dc0-41d1-b245-5ffdce74fad2''"
  "uuid demo (Suc (Suc (Suc 0))) = ''e902893a-9d22-4c7e-a7b8-d6e313b71d9f''"
  "uuid demo (Suc (Suc (Suc (Suc 0)))) = ''1b4e28ba-2fa1-41d2-883f-0016d3cca427''"
  by (simp_all add: demo_def demo_uuids_def)

section \<open>Sending\<close>

lemma sent_append: "sent (es @ fs) = sent es @ sent fs"
  by (induction es rule: sent.induct) simp_all

lemma emittedI: "sent (effects s') = sent (effects s) @ cs \<Longrightarrow> emitted s s' = cs"
  by (simp add: emitted_def)

lemma same_client_refl: "same_client s s"
  by (simp add: same_client_def)

lemma same_client_trans: "same_client s t \<Longrightarrow> same_client t u \<Longrightarrow> same_client s u"
  by (simp add: same_client_def)

lemma send_None:
  "same_client s (send rt c None s)"
  "uuid_calls (send rt c None s) = Suc (uuid_calls s)"
  "sent (effects (send rt c None s)) = sent (effects s) @ [(c, uuid rt (uuid_calls s))]"
  by (simp_all add: send_def same_client_def Let_def sent_append)


lemma inside_same: "same_client s s' \<Longrightarrow> inside s' = inside s"
  by (simp add: inside_def same_client_def fun_eq_iff)

section \<open>The loop of \<open>_processSet\<close>\<close>

lemma confirms_Cons:
  "confirms rt eventId setId xs ys (n # q) k =
     (confirm eventId setId n (ratio (element xs n) (element ys n)), uuid rt k)
       # confirms rt eventId setId xs ys q (Suc k)"
  by (simp add: confirms_def upt_rec[of k] del: upt_Suc)

lemma map_fst_confirms:
  "map fst (confirms rt eventId setId xs ys q k) =
     map (\<lambda>n. confirm eventId setId n (ratio (element xs n) (element ys n))) q"
  by (simp add: confirms_def)

lemma map_snd_confirms:
  "map snd (confirms rt eventId setId xs ys q k) = map (uuid rt) [k..<k + length q]"
  by (simp add: confirms_def)

lemma for_in_step:
  "for_in rt xs (Val ys) setId eventId (n # ns) s =
     for_in rt xs (Val ys) setId eventId ns
       (if inside s (ratio (element xs n) (element ys n))
        then send rt (confirm eventId setId n (ratio (element xs n) (element ys n))) None s
        else s)"
  by (simp add: inside_def Let_def)

lemma for_in_Val:
  "\<exists>s'. for_in rt xs (Val ys) setId eventId ns s = Inr s' \<and> same_client s s' \<and>
     uuid_calls s' = uuid_calls s + length (qualifying s xs ys ns) \<and>
     sent (effects s') =
       sent (effects s) @ confirms rt eventId setId xs ys (qualifying s xs ys ns) (uuid_calls s)"
proof (induction ns arbitrary: s)
  case Nil
  show ?case by (simp add: qualifying_def confirms_def same_client_refl)
next
  case (Cons n ns)
  let ?dv = "ratio (element xs n) (element ys n)"
  show ?case
  proof (cases "inside s ?dv")
    case True
    let ?s1 = "send rt (confirm eventId setId n ?dv) None s"
    have q: "qualifying ?s1 xs ys ns = qualifying s xs ys ns"
      by (simp add: qualifying_def inside_same[OF send_None(1)])
    from Cons.IH[of ?s1] obtain s' where s':
      "for_in rt xs (Val ys) setId eventId ns ?s1 = Inr s'" "same_client ?s1 s'"
      "uuid_calls s' = uuid_calls ?s1 + length (qualifying ?s1 xs ys ns)"
      "sent (effects s') = sent (effects ?s1) @
         confirms rt eventId setId xs ys (qualifying ?s1 xs ys ns) (uuid_calls ?s1)"
      by blast
    have "for_in rt xs (Val ys) setId eventId (n # ns) s = Inr s'"
      using True s'(1) by (simp only: for_in_step if_True)
    moreover have "same_client s s'"
      using same_client_trans[OF send_None(1) s'(2)] .
    moreover have "qualifying s xs ys (n # ns) = n # qualifying s xs ys ns"
      using True by (simp add: qualifying_def)
    ultimately show ?thesis
      using s'(3,4) by (simp add: q send_None confirms_Cons)
  next
    case False
    from Cons.IH[of s] obtain s' where s':
      "for_in rt xs (Val ys) setId eventId ns s = Inr s'" "same_client s s'"
      "uuid_calls s' = uuid_calls s + length (qualifying s xs ys ns)"
      "sent (effects s') = sent (effects s) @
         confirms rt eventId setId xs ys (qualifying s xs ys ns) (uuid_calls s)"
      by blast
    have "for_in rt xs (Val ys) setId eventId (n # ns) s = Inr s'"
      using False s'(1) by (simp only: for_in_step if_False)
    moreover have "qualifying s xs ys (n # ns) = qualifying s xs ys ns"
      using False by (simp add: qualifying_def)
    ultimately show ?thesis using s'(2,3,4) by simp
  qed
qed

lemma processSet_arrays:
  "\<exists>s'. processSet rt (Val xs) (Val ys) setId eventId s = Inr s' \<and> same_client s s' \<and>
     uuid_calls s' = uuid_calls s + length (qualifying s xs ys [0..<length xs]) \<and>
     sent (effects s') =
       sent (effects s)
         @ confirms rt eventId setId xs ys (qualifying s xs ys [0..<length xs]) (uuid_calls s)"
  using for_in_Val[of rt xs ys setId eventId "[0..<length xs]" s]
  by (simp add: processSet_def)

lemma js_lt_NaN [simp]: "\<not> js_lt x NaN"
  by (cases x) simp_all

lemma inside_NaN [simp]: "\<not> inside s NaN"
  by (simp add: inside_def)

lemma js_lt_irrefl [simp]: "\<not> js_lt x x"
  by (cases x) simp_all

lemma ratio_Undefined [simp]: "ratio a Undefined = NaN" "ratio Undefined b = NaN"
  by (simp_all add: ratio_def js_div_def parseFloat_number_def toPrecision3_def parseFloat_def)

lemma qualifying_common_prefix:
  "qualifying s xs ys [0..<length xs] = qualifying s xs ys [0..<min (length xs) (length ys)]"
proof (cases "length ys \<le> length xs")
  case True
  then have "[0..<length xs] = [0..<length ys] @ [length ys..<length xs]"
    by (metis le0 upt_add_eq_append le_add_diff_inverse)
  moreover have "filter (\<lambda>n. inside s (ratio (element xs n) (element ys n)))
      [length ys..<length xs] = []"
    by (simp add: filter_empty_conv element_def)
  ultimately show ?thesis using True by (simp add: qualifying_def min_def)
next
  case False
  then show ?thesis by (simp add: min_def)
qed

lemma qualifying_nth:
  "qualifying s xs ys [0..<min (length xs) (length ys)] =
     filter (\<lambda>i. inside s (ratio (Val (xs ! i)) (Val (ys ! i)))) [0..<min (length xs) (length ys)]"
  unfolding qualifying_def by (rule filter_cong) (simp_all add: element_def)

lemma confirm_map_nth:
  assumes "set q \<subseteq> {0..<min (length xs) (length ys)}"
  shows "map (\<lambda>n. confirm eventId setId n (ratio (element xs n) (element ys n))) q =
         map (\<lambda>i. confirm eventId setId i (ratio (Val (xs ! i)) (Val (ys ! i)))) q"
  using assms by (intro map_cong) (auto simp: element_def)

lemma confirm_inject [simp]:
  "confirm e sid i dv = confirm e' sid' i' dv' \<longleftrightarrow> e = e' \<and> sid = sid' \<and> i = i' \<and> dv = dv'"
  by (simp add: confirm_def)

lemma in_confirms:
  "(c, r) \<in> set (confirms rt eventId setId xs ys q k) \<Longrightarrow>
     \<exists>n \<in> set q. c = confirm eventId setId n (ratio (element xs n) (element ys n))"
  by (auto simp: confirms_def dest!: set_zip_leftD)

lemma inside_inf [simp]: "\<not> inside s PInf" "\<not> inside s NInf"
proof -
  show "\<not> inside s PInf"
    by (cases "ToNumber (this_maxDiv s)") (simp_all add: inside_def)
  show "\<not> inside s NInf"
    by (cases "ToNumber (this_minDiv s)") (simp_all add: inside_def)
qed

lemma ratio_zero_reference:
  assumes "is_zero b"
  shows "ratio a (Val b) \<in> {NaN, PInf, NInf}"
proof -
  have b: "b \<noteq> NaN" "\<not> is_inf b" using assms by (cases b; simp)+
  have "js_div (ToNumber a) b \<in> {NaN, PInf, NInf}"
    using assms b by (simp add: js_div_def inf_def)
  then show ?thesis
    by (auto simp: ratio_def parseFloat_number_def toPrecision3_def parseFloat_def inf_def)
qed

section \<open>The evaluation of a pair of series\<close>

text \<open>
  C5, as amended. For two series of equal length, \<open>_processSet\<close> returns, and the
  commands it hands to the socket are exactly the \<open>confirm\<close> commands of the indices \<open>i\<close>
  at which \<open>minDiv < div < maxDiv\<close> holds strictly, where \<open>div\<close> is the quotient of
  \<open>primary[i]\<close> by \<open>reference[i]\<close> printed by \<open>toPrecision(3)\<close>, that is rounded to three
  significant digits and not to three decimal places, and read back by \<open>parseFloat\<close>.
  Every index is visited, in order; each hit is one command of its own, with that \<open>div\<close>
  and a request id drawn for it; an index is confirmed if and only if its \<open>div\<close> is
  strictly inside the bounds, and a \<open>div\<close> equal to a bound is not confirmed.
\<close>

theorem confirm_iff_strictly_inside_bounds:
  assumes "length primary = length reference"
  shows "\<exists>s'. processSet rt (Val primary) (Val reference) setId eventId s = Inr s' \<and>
     map fst (emitted s s') =
       map (\<lambda>i. Cmd_confirm eventId setId i (ratio (Val (primary ! i)) (Val (reference ! i))))
         (filter (\<lambda>i. js_lt (ToNumber (this_minDiv s)) (ratio (Val (primary ! i)) (Val (reference ! i)))
                    \<and> js_lt (ratio (Val (primary ! i)) (Val (reference ! i))) (ToNumber (this_maxDiv s)))
            [0..<length primary]) \<and>
     map snd (emitted s s') = map (uuid rt) [uuid_calls s..<uuid_calls s + length (emitted s s')] \<and>
     (\<forall>i<length primary.
        Cmd_confirm eventId setId i (ratio (Val (primary ! i)) (Val (reference ! i)))
            \<in> fst ` set (emitted s s')
        \<longleftrightarrow> js_lt (ToNumber (this_minDiv s)) (ratio (Val (primary ! i)) (Val (reference ! i)))
            \<and> js_lt (ratio (Val (primary ! i)) (Val (reference ! i))) (ToNumber (this_maxDiv s))) \<and>
     (\<forall>i<length primary.
        ratio (Val (primary ! i)) (Val (reference ! i)) = ToNumber (this_minDiv s)
        \<or> ratio (Val (primary ! i)) (Val (reference ! i)) = ToNumber (this_maxDiv s)
        \<longrightarrow> Cmd_confirm eventId setId i (ratio (Val (primary ! i)) (Val (reference ! i)))
              \<notin> fst ` set (emitted s s')) \<and>
     (\<forall>i<length primary.
        ratio (Val (primary ! i)) (Val (reference ! i)) =
          parseFloat (toPrecision3 (parseFloat_number (js_div (primary ! i) (reference ! i)))))"
proof -
  let ?n = "length primary"
  let ?r = "\<lambda>i. ratio (Val (primary ! i)) (Val (reference ! i))"
  let ?P = "\<lambda>i. js_lt (ToNumber (this_minDiv s)) (?r i) \<and> js_lt (?r i) (ToNumber (this_maxDiv s))"
  let ?q = "qualifying s primary reference [0..<?n]"
  from processSet_arrays[of rt primary reference setId eventId s] obtain s' where s':
    "processSet rt (Val primary) (Val reference) setId eventId s = Inr s'"
    "sent (effects s') = sent (effects s) @ confirms rt eventId setId primary reference ?q (uuid_calls s)"
    by blast
  have em: "emitted s s' = confirms rt eventId setId primary reference ?q (uuid_calls s)"
    using s'(2) by (rule emittedI)
  have q: "?q = filter ?P [0..<?n]"
    using qualifying_common_prefix[of s primary reference] qualifying_nth[of s primary reference] assms
    by (simp add: inside_def)
  have sub: "set ?q \<subseteq> {0..<min (length primary) (length reference)}"
    using assms by (auto simp: qualifying_def)
  have fst_em: "map fst (emitted s s') = map (\<lambda>i. confirm eventId setId i (?r i)) (filter ?P [0..<?n])"
    using confirm_map_nth[OF sub, of eventId setId] by (simp add: em map_fst_confirms q)
  have snd_em: "map snd (emitted s s') = map (uuid rt) [uuid_calls s..<uuid_calls s + length (emitted s s')]"
    by (simp add: em map_snd_confirms) (simp add: confirms_def)
  have iff: "confirm eventId setId i (?r i) \<in> fst ` set (emitted s s') \<longleftrightarrow> ?P i" if "i < ?n" for i
  proof -
    have "fst ` set (emitted s s') = set (map fst (emitted s s'))" by simp
    also have "\<dots> = (\<lambda>i. confirm eventId setId i (?r i)) ` {i. i < ?n \<and> ?P i}"
      unfolding fst_em by auto
    finally show ?thesis using that by auto
  qed
  have edge: "confirm eventId setId i (?r i) \<notin> fst ` set (emitted s s')"
    if "i < ?n" "?r i = ToNumber (this_minDiv s) \<or> ?r i = ToNumber (this_maxDiv s)" for i
    using iff[OF that(1)] that(2) by auto
  have digits: "?r i = parseFloat (toPrecision3 (parseFloat_number (js_div (primary ! i) (reference ! i))))"
    for i
    by (simp add: ratio_def)
  have "processSet rt (Val primary) (Val reference) setId eventId s = Inr s' \<and>
     map fst (emitted s s') = map (\<lambda>i. confirm eventId setId i (?r i)) (filter ?P [0..<?n]) \<and>
     map snd (emitted s s') = map (uuid rt) [uuid_calls s..<uuid_calls s + length (emitted s s')] \<and>
     (\<forall>i<?n. confirm eventId setId i (?r i) \<in> fst ` set (emitted s s') \<longleftrightarrow> ?P i) \<and>
     (\<forall>i<?n. ?r i = ToNumber (this_minDiv s) \<or> ?r i = ToNumber (this_maxDiv s)
        \<longrightarrow> confirm eventId setId i (?r i) \<notin> fst ` set (emitted s s')) \<and>
     (\<forall>i<?n. ?r i = parseFloat (toPrecision3 (parseFloat_number (js_div (primary ! i) (reference ! i)))))"
    using s'(1) fst_em snd_em iff edge digits by blast
  then show ?thesis unfolding confirm_def by blast
qed

text \<open>
  The specification's scenario: bounds \<open>(1.0, 2.0)\<close>, \<open>set1 = [10, 20]\<close>,
  \<open>set2 = [5, 18]\<close>. Index 0 has the ratio 2, equal to the upper bound; index 1 is
  confirmed.
\<close>

theorem confirm_iff_strictly_inside_bounds_witness:
  "length [Fin 10, Fin 20] = length [Fin 5, Fin 18] \<and>
   (\<exists>s'. processSet demo (Val [Fin 10, Fin 20]) (Val [Fin 5, Fin 18]) ''set1'' (Event ''e1'')
            bounds_1_2 = Inr s' \<and>
         map fst (emitted bounds_1_2 s') = [Cmd_confirm (Event ''e1'') ''set1'' 1 double_1_11])"
proof -
  have h: "length [Fin 10, Fin 20] = length [Fin 5, Fin 18]" by simp
  have two: "[0..<length [Fin 10, Fin 20]] = [0, 1]" by (simp add: upt_rec)
  show ?thesis
    using confirm_iff_strictly_inside_bounds[OF h, of demo "''set1''" "Event ''e1''" bounds_1_2]
    unfolding two
    by (auto simp: ratio_10_5 ratio_20_18 bounds_1_2_def new_Client_def double_1_11_def)
qed

text \<open>
  Against the statement before its amendment, which rounds to three decimal places:
  with the bounds \<open>(1.11, 2.0)\<close> and the pair \<open>20\<close>, \<open>18\<close>, the quotient rounded to three
  decimal places is \<open>1.111\<close>, strictly inside the bounds, and yet nothing is sent, since
  the client computes \<open>1.11\<close>, which equals the lower bound.
\<close>

theorem three_decimal_ratio_inside_but_nothing_sent:
  "length [Fin 20] = length [Fin 18] \<and> \<not> is_zero (Fin 18) \<and>
   js_lt (ToNumber (this_minDiv bounds_111_2)) (fl False (spec_round_3_decimals (20 / 18))) \<and>
   js_lt (fl False (spec_round_3_decimals (20 / 18))) (ToNumber (this_maxDiv bounds_111_2)) \<and>
   thrown (processSet demo (Val [Fin 20]) (Val [Fin 18]) ''set1'' (Event ''e1'') bounds_111_2)
     = None \<and>
   emitted bounds_111_2
     (final (processSet demo (Val [Fin 20]) (Val [Fin 18]) ''set1'' (Event ''e1'') bounds_111_2))
     = []"
proof -
  have r3: "spec_round_3_decimals (20 / 18) = 1111 / 1000"
  proof -
    have "\<lfloor>(10000 / 9 + 1 / 2 :: rat)\<rfloor> = 1111" by (rule floor_unique) simp_all
    then show ?thesis by (simp add: spec_round_3_decimals_def)
  qed
  have c1: "js_lt (ToNumber (this_minDiv bounds_111_2)) (fl False (spec_round_3_decimals (20 / 18)))"
    unfolding r3 fl_1_111
    by (simp add: bounds_111_2_def new_Client_def double_1_11_def double_1_111_def)
  have c2: "js_lt (fl False (spec_round_3_decimals (20 / 18))) (ToNumber (this_maxDiv bounds_111_2))"
    unfolding r3 fl_1_111
    by (simp add: bounds_111_2_def new_Client_def double_1_111_def)
  have run: "processSet demo (Val [Fin 20]) (Val [Fin 18]) ''set1'' (Event ''e1'') bounds_111_2
      = Inr bounds_111_2"
    by (simp add: processSet_def element_def ratio_20_18 bounds_111_2_def new_Client_def)
  have c3: "thrown (processSet demo (Val [Fin 20]) (Val [Fin 18]) ''set1'' (Event ''e1'')
      bounds_111_2) = None"
    by (simp add: run thrown_def)
  have c4: "emitted bounds_111_2
     (final (processSet demo (Val [Fin 20]) (Val [Fin 18]) ''set1'' (Event ''e1'') bounds_111_2))
     = []"
    by (simp add: run final_def emitted_def)
  show ?thesis using c1 c2 c3 c4 by simp
qed

text \<open>
  C6. At an index where the reference is zero (\<open>+0\<close> or \<open>-0\<close>), the ratio is NaN or an
  infinity, \<open>_processSet\<close> returns without an exception, and no \<open>confirm\<close> command is
  sent for that index, whatever the bounds are.
\<close>

theorem zero_reference_never_confirms:
  assumes "i < length primary" "i < length reference" "is_zero (reference ! i)"
  shows "\<exists>s'. processSet rt (Val primary) (Val reference) setId eventId s = Inr s' \<and>
     ratio (Val (primary ! i)) (Val (reference ! i)) \<in> {NaN, PInf, NInf} \<and>
     (\<forall>dv r. (confirm eventId setId i dv, r) \<notin> set (emitted s s'))"
proof -
  let ?q = "qualifying s primary reference [0..<length primary]"
  from processSet_arrays[of rt primary reference setId eventId s] obtain s' where s':
    "processSet rt (Val primary) (Val reference) setId eventId s = Inr s'"
    "sent (effects s') = sent (effects s) @ confirms rt eventId setId primary reference ?q (uuid_calls s)"
    by blast
  have em: "emitted s s' = confirms rt eventId setId primary reference ?q (uuid_calls s)"
    using s'(2) by (rule emittedI)
  have z: "ratio (Val (primary ! i)) (Val (reference ! i)) \<in> {NaN, PInf, NInf}"
    using assms(3) by (rule ratio_zero_reference)
  then have out: "\<not> inside s (ratio (element primary i) (element reference i))"
    using assms(1,2) by (auto simp: element_def)
  have "(confirm eventId setId i dv, r) \<notin> set (emitted s s')" for dv r
  proof
    assume "(confirm eventId setId i dv, r) \<in> set (emitted s s')"
    then obtain n where "n \<in> set ?q"
      "confirm eventId setId i dv = confirm eventId setId n (ratio (element primary n) (element reference n))"
      unfolding em by (blast dest: in_confirms)
    then have "i \<in> set ?q" by simp
    then show False using out by (simp add: qualifying_def)
  qed
  then show ?thesis using s'(1) z by blast
qed

text \<open>\<open>3 / 0\<close> with the bounds \<open>(1.0, 2.0)\<close>.\<close>

theorem zero_reference_never_confirms_witness:
  "0 < length [Fin 3] \<and> 0 < length [Fin 0] \<and> is_zero ([Fin 0] ! 0) \<and>
   (\<exists>s'. processSet demo (Val [Fin 3]) (Val [Fin 0]) ''set1'' (Event ''e1'') bounds_1_2 = Inr s' \<and>
         ratio (Val ([Fin 3] ! 0)) (Val ([Fin 0] ! 0)) \<in> {NaN, PInf, NInf} \<and>
         (\<forall>dv r. (confirm (Event ''e1'') ''set1'' 0 dv, r) \<notin> set (emitted bounds_1_2 s')))"
proof -
  have h: "0 < length [Fin 3]" "0 < length [Fin 0]" "is_zero ([Fin 0] ! 0)" by simp_all
  show ?thesis
    using h zero_reference_never_confirms[OF h, of demo "''set1''" "Event ''e1''" bounds_1_2]
    by blast
qed

section \<open>Messages that are not data\<close>

lemma deliver_exited: "exited s \<noteq> None \<Longrightarrow> deliver rt msgs s = Inr s"
  by (cases msgs) simp_all

text \<open>
  C3, as amended. For a text that \<open>JSON.parse\<close> rejects, \<open>_onMessage\<close> writes the log
  line of the text and the \<open>SyntaxError\<close> then leaves the handler, which catches
  nothing: the bounds and the tracked requests are as before, no command is sent, and
  the delivery of the texts that follow ends with that exception.
\<close>

theorem unparseable_text_throws_out_of_onMessage:
  assumes "JSON_parse rt msg = Parse_error" "exited s = None"
  shows "onMessage rt msg s = Inl (SyntaxError, s\<lparr>effects := effects s @ [Log_in msg]\<rparr>) \<and>
         deliver rt (msg # later) s = Inl (SyntaxError, s\<lparr>effects := effects s @ [Log_in msg]\<rparr>)"
  using assms by (simp add: onMessage_def)

text \<open>A truncated text, followed by a \<open>Win\<close> message that is never handled.\<close>

theorem unparseable_text_throws_out_of_onMessage_witness:
  "JSON_parse demo broken_text = Parse_error \<and> exited bounds_1_2 = None \<and>
   onMessage demo broken_text bounds_1_2 =
     Inl (SyntaxError, bounds_1_2\<lparr>effects := effects bounds_1_2 @ [Log_in broken_text]\<rparr>) \<and>
   deliver demo [broken_text, win_text] bounds_1_2 =
     Inl (SyntaxError, bounds_1_2\<lparr>effects := effects bounds_1_2 @ [Log_in broken_text]\<rparr>)"
proof -
  have h: "JSON_parse demo broken_text = Parse_error" "exited bounds_1_2 = None"
    by (simp_all add: demo_parse_simps bounds_1_2_def new_Client_def)
  show ?thesis
    using h unparseable_text_throws_out_of_onMessage[OF h, of "[win_text]"] by simp
qed

text \<open>
  Against the statement before its amendment: on the truncated text the handler does
  not return, and the \<open>Win\<close> message behind it, which alone would end the session with
  code 0, is not handled.
\<close>

theorem unparseable_text_is_not_discarded:
  "thrown (onMessage demo broken_text new_Client) = Some SyntaxError \<and>
   thrown (deliver demo [broken_text, win_text] new_Client) = Some SyntaxError \<and>
   exited (final (deliver demo [broken_text, win_text] new_Client)) = None \<and>
   exited (final (deliver demo [win_text] new_Client)) = Some 0"
  by (simp add: onMessage_def demo_parse_simps new_Client_def thrown_def final_def
      onWinHandler_def stop_def)

text \<open>
  C10. A message whose \<open>events\<close> property is \<open>null\<close> passes the test
  \<open>typeof data.events === 'object'\<close>, so \<open>_onMessage\<close> hands it to \<open>_onEventsHandler\<close>
  and to no other handler; that handler clears the tracked requests, stores the
  message's bounds, and then \<open>Object.keys(null)\<close> throws a \<open>TypeError\<close>.
\<close>

theorem null_events_reaches_the_events_handler_and_throws:
  assumes "JSON_parse rt msg = Parsed d" "events d = Null"
  shows "typeof_object (events d) \<and>
     onMessage rt msg s = onEventsHandler rt d (s\<lparr>effects := effects s @ [Log_in msg]\<rparr>) \<and>
     onMessage rt msg s =
       Inl (TypeError,
            s\<lparr>effects := effects s @ [Log_in msg], this_events := Map.empty,
              this_minDiv := minDiv d, this_maxDiv := maxDiv d\<rparr>)"
  using assms by (simp add: onMessage_def onEventsHandler_def)

text \<open>The text \<open>{"minDiv":1,"maxDiv":2,"events":null}\<close> given to a new client.\<close>

theorem null_events_reaches_the_events_handler_and_throws_witness:
  "JSON_parse demo null_events_text =
     Parsed \<lparr>reqId = Undefined, minDiv = Val (Fin 1), maxDiv = Val (Fin 2),
             events = Null, data = Undefined, message = Undefined\<rparr> \<and>
   onMessage demo null_events_text new_Client =
     Inl (TypeError,
          new_Client\<lparr>effects := [Log_in null_events_text], this_events := Map.empty,
            this_minDiv := Val (Fin 1), this_maxDiv := Val (Fin 2)\<rparr>)"
proof -
  let ?d = "\<lparr>reqId = Undefined, minDiv = Val (Fin 1), maxDiv = Val (Fin 2),
             events = Null, data = Undefined, message = Undefined\<rparr>"
  have h: "JSON_parse demo null_events_text = Parsed ?d" "events ?d = Null"
    by (simp_all add: demo_parse_simps)
  have "onMessage demo null_events_text new_Client =
      Inl (TypeError,
           new_Client\<lparr>effects := effects new_Client @ [Log_in null_events_text],
             this_events := Map.empty, this_minDiv := minDiv ?d, this_maxDiv := maxDiv ?d\<rparr>)"
    using null_events_reaches_the_events_handler_and_throws[OF h, of new_Client] by blast
  moreover have "effects new_Client = []" by (simp add: new_Client_def)
  ultimately show ?thesis using h(1) by simp
qed

text \<open>
  C8. A message that is neither an events update nor a data response and whose
  \<open>message\<close> is \<open>Win\<close> or \<open>Lose\<close> makes the client clear the timer, then close the
  socket, then exit, with code 0 for \<open>Win\<close> and 1 for \<open>Lose\<close>. The process is gone
  after that: whatever texts follow, a second \<open>Win\<close> or \<open>Lose\<close> among them, are not
  handled and the state stays the one of the exit, so the cleanup happens once.
\<close>

theorem terminal_message_stops_the_client_once:
  assumes "JSON_parse rt msg = Parsed d" "\<not> typeof_object (events d)" "\<not> typeof_object (data d)"
    and "message d = Val ''Win'' \<or> message d = Val ''Lose''" "exited s = None"
  shows "\<exists>s'. onMessage rt msg s = Inr s' \<and>
     exited s' = Some (if message d = Val ''Win'' then 0 else 1) \<and>
     effects s' =
       effects s @ [Log_in msg, Clear_interval, Ws_close,
                    Process_exit (if message d = Val ''Win'' then 0 else 1)] \<and>
     \<not> timer_active s' \<and>
     (\<forall>later. deliver rt (msg # later) s = Inr s')"
proof -
  let ?code = "if message d = Val ''Win'' then 0 else (1::nat)"
  let ?s' = "stop ?code (s\<lparr>effects := effects s @ [Log_in msg]\<rparr>)"
  have run: "onMessage rt msg s = Inr ?s'"
    using assms(1-4) by (auto simp: onMessage_def onLoseHandler_def onWinHandler_def)
  have ex: "exited ?s' \<noteq> None" by (simp add: stop_def)
  have "deliver rt (msg # later) s = Inr ?s'" for later
    using assms(5) run deliver_exited[OF ex] by simp
  then show ?thesis using run by (auto simp: stop_def)
qed

text \<open>A \<open>Lose\<close> message after \<open>_onOpen\<close>, followed by a second one and a \<open>Win\<close>.\<close>

theorem terminal_message_stops_the_client_once_witness:
  "JSON_parse demo lose_text =
     Parsed \<lparr>reqId = Undefined, minDiv = Undefined, maxDiv = Undefined,
             events = Undefined, data = Undefined, message = Val ''Lose''\<rparr> \<and>
   exited (onOpen demo new_Client) = None \<and> timer_active (onOpen demo new_Client) \<and>
   (\<exists>s'. onMessage demo lose_text (onOpen demo new_Client) = Inr s' \<and>
      exited s' = Some 1 \<and> \<not> timer_active s' \<and>
      deliver demo [lose_text, lose_text, win_text] (onOpen demo new_Client) = Inr s')"
proof -
  let ?d = "\<lparr>reqId = Undefined, minDiv = Undefined, maxDiv = Undefined,
             events = Undefined, data = Undefined, message = Val ''Lose''\<rparr>"
  have h: "JSON_parse demo lose_text = Parsed ?d" "\<not> typeof_object (events ?d)"
    "\<not> typeof_object (data ?d)" "message ?d = Val ''Win'' \<or> message ?d = Val ''Lose''"
    "exited (onOpen demo new_Client) = None"
    by (simp_all add: demo_parse_simps onOpen_def send_def new_Client_def Let_def)
  have t: "timer_active (onOpen demo new_Client)"
    by (simp add: onOpen_def Let_def)
  show ?thesis
    using h(1,5) t terminal_message_stops_the_client_once[OF h]
    by auto
qed

section \<open>Events updates\<close>

















section \<open>Data responses\<close>

lemma qualifying_same: "same_client s s' \<Longrightarrow> qualifying s' xs ys ns = qualifying s xs ys ns"
  by (simp add: qualifying_def inside_same)

lemma onMessage_data:
  assumes "JSON_parse rt msg = Parsed d" "\<not> typeof_object (events d)" "data d = Val sets"
  shows "onMessage rt msg s = onDataHandler rt d (s\<lparr>effects := effects s @ [Log_in msg]\<rparr>)"
  using assms by (simp add: onMessage_def)

lemma onDataHandler_arrays:
  assumes "data d = Val sets" "set1 sets = Val xs" "set2 sets = Val ys"
  shows "\<exists>s'. onDataHandler rt d s = Inr s' \<and> same_client s s' \<and>
     sent (effects s') = sent (effects s)
       @ confirms rt (get_property (this_events s) (property_key (reqId d))) ''set1'' xs ys
           (qualifying s xs ys [0..<length xs]) (uuid_calls s)
       @ confirms rt (get_property (this_events s) (property_key (reqId d))) ''set2'' ys xs
           (qualifying s ys xs [0..<length ys])
           (uuid_calls s + length (qualifying s xs ys [0..<length xs]))"
proof -
  define eid where "eid = get_property (this_events s) (property_key (reqId d))"
  from processSet_arrays[of rt xs ys "''set1''" eid s] obtain s1 where s1:
    "processSet rt (Val xs) (Val ys) ''set1'' eid s = Inr s1" "same_client s s1"
    "uuid_calls s1 = uuid_calls s + length (qualifying s xs ys [0..<length xs])"
    "sent (effects s1) = sent (effects s)
       @ confirms rt eid ''set1'' xs ys (qualifying s xs ys [0..<length xs]) (uuid_calls s)"
    by blast
  from processSet_arrays[of rt ys xs "''set2''" eid s1] obtain s2 where s2:
    "processSet rt (Val ys) (Val xs) ''set2'' eid s1 = Inr s2" "same_client s1 s2"
    "sent (effects s2) = sent (effects s1)
       @ confirms rt eid ''set2'' ys xs (qualifying s1 ys xs [0..<length ys]) (uuid_calls s1)"
    by blast
  have "onDataHandler rt d s = Inr s2"
    using assms s1(1) s2(1) by (simp add: onDataHandler_def eid_def)
  moreover have "same_client s s2" using s1(2) s2(2) by (rule same_client_trans)
  ultimately show ?thesis
    using s1(3,4) s2(3) qualifying_same[OF s1(2)] by (simp add: eid_def)
qed

lemma in_confirms_iff:
  "c \<in> fst ` set (confirms rt eventId setId xs ys q k) \<longleftrightarrow>
     c \<in> (\<lambda>n. confirm eventId setId n (ratio (element xs n) (element ys n))) ` set q"
proof -
  have "fst ` set (confirms rt eventId setId xs ys q k)
      = set (map fst (confirms rt eventId setId xs ys q k))" by simp
  then show ?thesis unfolding map_fst_confirms by simp
qed

lemma data_response_commands:
  assumes "JSON_parse rt msg = Parsed d" "\<not> typeof_object (events d)" "data d = Val sets"
    and "set1 sets = Val xs" "set2 sets = Val ys"
  shows "\<exists>s'. onMessage rt msg s = Inr s' \<and>
     map fst (emitted s s') =
       map (\<lambda>i. confirm (get_property (this_events s) (property_key (reqId d))) ''set1'' i
                  (ratio (Val (xs ! i)) (Val (ys ! i))))
         (filter (\<lambda>i. inside s (ratio (Val (xs ! i)) (Val (ys ! i))))
            [0..<min (length xs) (length ys)])
       @ map (\<lambda>i. confirm (get_property (this_events s) (property_key (reqId d))) ''set2'' i
                    (ratio (Val (ys ! i)) (Val (xs ! i))))
           (filter (\<lambda>i. inside s (ratio (Val (ys ! i)) (Val (xs ! i))))
              [0..<min (length xs) (length ys)])"
proof -
  define eid where "eid = get_property (this_events s) (property_key (reqId d))"
  define s0 where "s0 = s\<lparr>effects := effects s @ [Log_in msg]\<rparr>"
  define m where "m = min (length xs) (length ys)"
  have same0: "same_client s s0" by (simp add: s0_def same_client_def)
  have ev0: "this_events s0 = this_events s" "sent (effects s0) = sent (effects s)"
    by (simp_all add: s0_def sent_append)
  have q1: "qualifying s0 xs ys [0..<length xs]
      = filter (\<lambda>i. inside s (ratio (Val (xs ! i)) (Val (ys ! i)))) [0..<m]"
    using qualifying_common_prefix[of s xs ys] qualifying_nth[of s xs ys]
    by (simp add: qualifying_same[OF same0] m_def)
  have q2: "qualifying s0 ys xs [0..<length ys]
      = filter (\<lambda>i. inside s (ratio (Val (ys ! i)) (Val (xs ! i)))) [0..<m]"
    using qualifying_common_prefix[of s ys xs] qualifying_nth[of s ys xs]
    by (simp add: qualifying_same[OF same0] m_def min.commute)
  from onDataHandler_arrays[OF assms(3,4,5), of rt s0] obtain s' where s':
    "onDataHandler rt d s0 = Inr s'"
    "sent (effects s') = sent (effects s0)
       @ confirms rt eid ''set1'' xs ys (qualifying s0 xs ys [0..<length xs]) (uuid_calls s0)
       @ confirms rt eid ''set2'' ys xs (qualifying s0 ys xs [0..<length ys])
           (uuid_calls s0 + length (qualifying s0 xs ys [0..<length xs]))"
    unfolding ev0 eid_def by blast
  have run: "onMessage rt msg s = Inr s'"
    using onMessage_data[OF assms(1,2,3), of s] s'(1) by (simp add: s0_def)
  have "emitted s s' =
      confirms rt eid ''set1'' xs ys (qualifying s0 xs ys [0..<length xs]) (uuid_calls s0)
       @ confirms rt eid ''set2'' ys xs (qualifying s0 ys xs [0..<length ys])
           (uuid_calls s0 + length (qualifying s0 xs ys [0..<length xs]))"
    using s'(2) unfolding ev0 by (rule emittedI)
  then have "map fst (emitted s s') =
      map (\<lambda>n. confirm eid ''set1'' n (ratio (element xs n) (element ys n)))
        (filter (\<lambda>i. inside s (ratio (Val (xs ! i)) (Val (ys ! i)))) [0..<m])
      @ map (\<lambda>n. confirm eid ''set2'' n (ratio (element ys n) (element xs n)))
        (filter (\<lambda>i. inside s (ratio (Val (ys ! i)) (Val (xs ! i)))) [0..<m])"
    by (simp add: map_fst_confirms q1 q2)
  moreover have "map (\<lambda>n. confirm eid ''set1'' n (ratio (element xs n) (element ys n)))
        (filter (\<lambda>i. inside s (ratio (Val (xs ! i)) (Val (ys ! i)))) [0..<m])
      = map (\<lambda>i. confirm eid ''set1'' i (ratio (Val (xs ! i)) (Val (ys ! i))))
        (filter (\<lambda>i. inside s (ratio (Val (xs ! i)) (Val (ys ! i)))) [0..<m])"
    by (rule confirm_map_nth) (auto simp: m_def)
  moreover have "map (\<lambda>n. confirm eid ''set2'' n (ratio (element ys n) (element xs n)))
        (filter (\<lambda>i. inside s (ratio (Val (ys ! i)) (Val (xs ! i)))) [0..<m])
      = map (\<lambda>i. confirm eid ''set2'' i (ratio (Val (ys ! i)) (Val (xs ! i))))
        (filter (\<lambda>i. inside s (ratio (Val (ys ! i)) (Val (xs ! i)))) [0..<m])"
    by (rule confirm_map_nth) (auto simp: m_def)
  ultimately show ?thesis using run unfolding eid_def m_def by auto
qed

text \<open>
  C1, as amended. For a data response with two arrays whose request id is not in the
  table, \<open>this._events[reqId]\<close> is \<open>undefined\<close> (or, for a key such as \<open>toString\<close>, the
  member inherited from \<open>Object.prototype\<close>), and the message is not ignored: both series
  are evaluated as for a tracked id, and each index whose ratio is strictly inside the
  bounds gets its \<open>confirm\<close> command, sent with that value in place of an event id.
\<close>

theorem untracked_request_id_is_still_evaluated:
  assumes "JSON_parse rt msg = Parsed d" "\<not> typeof_object (events d)" "data d = Val sets"
    and "set1 sets = Val xs" "set2 sets = Val ys"
    and "this_events s (property_key (reqId d)) = None"
  shows "\<exists>s' ref. onMessage rt msg s = Inr s' \<and>
     ref = get_property (this_events s) (property_key (reqId d)) \<and>
     (ref = No_event \<or> ref = Inherited (property_key (reqId d))) \<and>
     map fst (emitted s s') =
       map (\<lambda>i. confirm ref ''set1'' i (ratio (Val (xs ! i)) (Val (ys ! i))))
         (filter (\<lambda>i. inside s (ratio (Val (xs ! i)) (Val (ys ! i))))
            [0..<min (length xs) (length ys)])
       @ map (\<lambda>i. confirm ref ''set2'' i (ratio (Val (ys ! i)) (Val (xs ! i))))
           (filter (\<lambda>i. inside s (ratio (Val (ys ! i)) (Val (xs ! i))))
              [0..<min (length xs) (length ys)])"
proof -
  have "get_property (this_events s) (property_key (reqId d)) = No_event \<or>
      get_property (this_events s) (property_key (reqId d)) = Inherited (property_key (reqId d))"
    using assms(6) by (simp add: get_property_def)
  then show ?thesis
    using data_response_commands[OF assms(1-5), of s] by blast
qed

text \<open>The specification's data, with a request id that no events update has tracked.\<close>

theorem untracked_request_id_is_still_evaluated_witness:
  "JSON_parse demo data_text =
     Parsed \<lparr>reqId = Val (demo_uuids ! 0), minDiv = Undefined, maxDiv = Undefined,
             events = Undefined,
             data = Val \<lparr>set1 = Val [Fin 10, Fin 20], set2 = Val [Fin 5, Fin 18]\<rparr>,
             message = Undefined\<rparr> \<and>
   this_events bounds_1_2 (demo_uuids ! 0) = None \<and>
   (\<exists>s'. onMessage demo data_text bounds_1_2 = Inr s' \<and>
      map fst (emitted bounds_1_2 s') = [confirm No_event ''set1'' 1 double_1_11])"
proof -
  let ?sets = "\<lparr>set1 = Val [Fin 10, Fin 20], set2 = Val [Fin 5, Fin 18]\<rparr>"
  let ?d = "\<lparr>reqId = Val (demo_uuids ! 0), minDiv = Undefined, maxDiv = Undefined,
             events = Undefined, data = Val ?sets, message = Undefined\<rparr>"
  have h: "JSON_parse demo data_text = Parsed ?d" "\<not> typeof_object (events ?d)"
    "data ?d = Val ?sets" "set1 ?sets = Val [Fin 10, Fin 20]" "set2 ?sets = Val [Fin 5, Fin 18]"
    "this_events bounds_1_2 (property_key (reqId ?d)) = None"
    by (simp_all add: demo_parse_simps bounds_1_2_def new_Client_def)
  have two: "[0..<min (length [Fin 10, Fin 20]) (length [Fin 5, Fin 18])] = [0, 1]"
    by (simp add: upt_rec)
  have ref: "get_property (this_events bounds_1_2) (property_key (reqId ?d)) = No_event"
    by (simp add: get_property_def bounds_1_2_def new_Client_def demo_uuids_def
        Object_prototype_def)
  have ins: "\<not> inside bounds_1_2 (Fin 2)" "inside bounds_1_2 double_1_11"
    "\<not> inside bounds_1_2 (Fin (1 / 2))" "\<not> inside bounds_1_2 double_0_9"
    by (simp_all add: inside_def bounds_1_2_def new_Client_def double_1_11_def double_0_9_def)
  from untracked_request_id_is_still_evaluated[OF h]
  obtain s' where "onMessage demo data_text bounds_1_2 = Inr s'"
    "map fst (emitted bounds_1_2 s') = [confirm No_event ''set1'' 1 double_1_11]"
    unfolding two ref
    by (auto simp: ratio_10_5 ratio_20_18 ratio_5_10 ratio_18_20 ins)
  then show ?thesis using h(1,6) by auto
qed

text \<open>
  Against the statement before its amendment: two events updates in a row, then the
  data response to the \<open>getData\<close> of the first update, whose request id the second
  update dropped. A \<open>confirm\<close> command is sent for index 1 of \<open>set1\<close>, without an event id.
\<close>

theorem stale_data_response_is_confirmed:
  "thrown (deliver demo [events_text, events_text, data_text] new_Client) = None \<and>
   sent (effects (final (deliver demo [events_text, events_text, data_text] new_Client))) =
     [(Cmd_getData ''e1'', uuid demo 0), (Cmd_getData ''e2'', uuid demo 1),
      (Cmd_getData ''e1'', uuid demo 2), (Cmd_getData ''e2'', uuid demo 3),
      (Cmd_confirm No_event ''set1'' 1 double_1_11, uuid demo 4)]"
  by (simp add: onMessage_def demo_parse_simps new_Client_def onEventsHandler_def final_def
     thrown_def send_def getData_def set_property_def Let_def onDataHandler_def processSet_def
     get_property_def element_def ratio_20_18 ratio_10_5 ratio_5_10 ratio_18_20 confirm_def
     demo_uuid_simps demo_uuids_def Object_prototype_def double_1_11_def double_0_9_def upt_rec
     eval_nat_numeral)

text \<open>
  C4, as amended. A data response with two arrays, of equal length or not, raises no
  exception, and no \<open>confirm\<close> command is sent for an index beyond the end of the shorter
  array; the indices that both arrays have are evaluated as usual, so each of them whose
  ratio is strictly inside the bounds gets its \<open>confirm\<close> command.
\<close>

theorem unequal_series_are_evaluated_on_the_common_indices:
  assumes "JSON_parse rt msg = Parsed d" "\<not> typeof_object (events d)" "data d = Val sets"
    and "set1 sets = Val xs" "set2 sets = Val ys"
  shows "\<exists>s'. onMessage rt msg s = Inr s' \<and>
     map fst (emitted s s') =
       map (\<lambda>i. confirm (get_property (this_events s) (property_key (reqId d))) ''set1'' i
                  (ratio (Val (xs ! i)) (Val (ys ! i))))
         (filter (\<lambda>i. inside s (ratio (Val (xs ! i)) (Val (ys ! i))))
            [0..<min (length xs) (length ys)])
       @ map (\<lambda>i. confirm (get_property (this_events s) (property_key (reqId d))) ''set2'' i
                    (ratio (Val (ys ! i)) (Val (xs ! i))))
           (filter (\<lambda>i. inside s (ratio (Val (ys ! i)) (Val (xs ! i))))
              [0..<min (length xs) (length ys)]) \<and>
     (\<forall>e sid i dv. confirm e sid i dv \<in> fst ` set (emitted s s')
        \<longrightarrow> i < length xs \<and> i < length ys)"
proof -
  from data_response_commands[OF assms, of s] obtain s' where s':
    "onMessage rt msg s = Inr s'"
    "map fst (emitted s s') =
       map (\<lambda>i. confirm (get_property (this_events s) (property_key (reqId d))) ''set1'' i
                  (ratio (Val (xs ! i)) (Val (ys ! i))))
         (filter (\<lambda>i. inside s (ratio (Val (xs ! i)) (Val (ys ! i))))
            [0..<min (length xs) (length ys)])
       @ map (\<lambda>i. confirm (get_property (this_events s) (property_key (reqId d))) ''set2'' i
                    (ratio (Val (ys ! i)) (Val (xs ! i))))
           (filter (\<lambda>i. inside s (ratio (Val (ys ! i)) (Val (xs ! i))))
              [0..<min (length xs) (length ys)])"
    by blast
  have "i < length xs \<and> i < length ys"
    if "confirm e sid i dv \<in> fst ` set (emitted s s')" for e sid i dv
  proof -
    have "confirm e sid i dv \<in> set (map fst (emitted s s'))" using that by simp
    then show ?thesis unfolding s'(2) by auto
  qed
  then show ?thesis using s' by blast
qed

text \<open>\<open>set1 = [10, 20, 3]\<close> against \<open>set2 = [5, 18]\<close>, with the bounds \<open>(1.0, 2.0)\<close>.\<close>

theorem unequal_series_are_evaluated_on_the_common_indices_witness:
  "JSON_parse demo longer_text =
     Parsed \<lparr>reqId = Val (demo_uuids ! 0), minDiv = Undefined, maxDiv = Undefined,
             events = Undefined,
             data = Val \<lparr>set1 = Val [Fin 10, Fin 20, Fin 3], set2 = Val [Fin 5, Fin 18]\<rparr>,
             message = Undefined\<rparr> \<and>
   length [Fin 10, Fin 20, Fin 3 :: number] \<noteq> length [Fin 5, Fin 18 :: number] \<and>
   (\<exists>s'. onMessage demo longer_text bounds_1_2 = Inr s' \<and>
      map fst (emitted bounds_1_2 s') = [confirm No_event ''set1'' 1 double_1_11])"
proof -
  let ?sets = "\<lparr>set1 = Val [Fin 10, Fin 20, Fin 3], set2 = Val [Fin 5, Fin 18]\<rparr>"
  let ?d = "\<lparr>reqId = Val (demo_uuids ! 0), minDiv = Undefined, maxDiv = Undefined,
             events = Undefined, data = Val ?sets, message = Undefined\<rparr>"
  have h: "JSON_parse demo longer_text = Parsed ?d" "\<not> typeof_object (events ?d)"
    "data ?d = Val ?sets" "set1 ?sets = Val [Fin 10, Fin 20, Fin 3]"
    "set2 ?sets = Val [Fin 5, Fin 18]"
    by (simp_all add: demo_parse_simps)
  have two: "[0..<min (length [Fin 10, Fin 20, Fin 3]) (length [Fin 5, Fin 18])] = [0, 1]"
    by (simp add: upt_rec)
  have ref: "get_property (this_events bounds_1_2) (property_key (reqId ?d)) = No_event"
    by (simp add: get_property_def bounds_1_2_def new_Client_def demo_uuids_def
        Object_prototype_def)
  have ins: "\<not> inside bounds_1_2 (Fin 2)" "inside bounds_1_2 double_1_11"
    "\<not> inside bounds_1_2 (Fin (1 / 2))" "\<not> inside bounds_1_2 double_0_9"
    by (simp_all add: inside_def bounds_1_2_def new_Client_def double_1_11_def double_0_9_def)
  from unequal_series_are_evaluated_on_the_common_indices[OF h, of bounds_1_2]
  obtain s' where "onMessage demo longer_text bounds_1_2 = Inr s'"
    "map fst (emitted bounds_1_2 s') = [confirm No_event ''set1'' 1 double_1_11]"
    unfolding two ref
    by (auto simp: ratio_10_5 ratio_20_18 ratio_5_10 ratio_18_20 ins)
  then show ?thesis using h(1) by auto
qed

text \<open>
  Against the statement before its amendment: an events update, then the data response
  to its first \<open>getData\<close> with three numbers in \<open>set1\<close> and two in \<open>set2\<close>. The message
  is not discarded, a \<open>confirm\<close> command is sent for index 1 of \<open>set1\<close>.
\<close>

theorem unequal_series_still_confirm:
  "thrown (deliver demo [events_text, longer_text] new_Client) = None \<and>
   sent (effects (final (deliver demo [events_text, longer_text] new_Client))) =
     [(Cmd_getData ''e1'', uuid demo 0), (Cmd_getData ''e2'', uuid demo 1),
      (Cmd_confirm (Event ''e1'') ''set1'' 1 double_1_11, uuid demo 2)]"
  by (simp add: onMessage_def demo_parse_simps new_Client_def onEventsHandler_def final_def
     thrown_def send_def getData_def set_property_def Let_def onDataHandler_def processSet_def
     get_property_def element_def ratio_20_18 ratio_10_5 ratio_5_10 ratio_18_20 confirm_def
     demo_uuid_simps demo_uuids_def Object_prototype_def double_1_11_def double_0_9_def upt_rec
     eval_nat_numeral)

section \<open>The rounding of the ratio\<close>

text \<open>
  \<open>toPrecision3\<close> meets the clause of the language standard for \<open>toPrecision(3)\<close> on a
  non-zero finite Number: three digits \<open>n\<close> and an exponent \<open>e\<close> such that
  \<open>n * 10^(e - 2)\<close> is as close to the magnitude of the Number as three digits can be,
  and the larger of the two candidates when two are equally close.
\<close>

lemma nearest_multiple:
  fixes t :: rat and n m :: int
  assumes "of_int n - 1 / 2 \<le> t" "t < of_int n + 1 / 2"
  shows "\<bar>of_int n - t\<bar> \<le> \<bar>of_int m - t\<bar>"
    and "\<bar>of_int m - t\<bar> = \<bar>of_int n - t\<bar> \<Longrightarrow> m \<le> n"
proof -
  consider "m \<le> n - 1" | "m = n" | "n + 1 \<le> m" by linarith
  then have "\<bar>of_int n - t\<bar> \<le> \<bar>of_int m - t\<bar> \<and> (\<bar>of_int m - t\<bar> = \<bar>of_int n - t\<bar> \<longrightarrow> m \<le> n)"
  proof cases
    case 1
    then have "(of_int m :: rat) \<le> of_int n - 1" by (metis of_int_le_iff of_int_diff of_int_1)
    then show ?thesis using assms 1 by (auto simp: abs_if)
  next
    case 2
    then show ?thesis by simp
  next
    case 3
    then have "(of_int n :: rat) + 1 \<le> of_int m" by (metis of_int_le_iff of_int_add of_int_1)
    then show ?thesis using assms by (auto simp: abs_if)
  qed
  then show "\<bar>of_int n - t\<bar> \<le> \<bar>of_int m - t\<bar>"
    and "\<bar>of_int m - t\<bar> = \<bar>of_int n - t\<bar> \<Longrightarrow> m \<le> n" by simp_all
qed

lemma toPrecision3_nearest:
  assumes "x \<noteq> 0"
  shows "\<exists>n e. toPrecision3 (Fin x) = Text_digits (x < 0) n e \<and> 100 \<le> n \<and> n < 1000 \<and>
     (\<forall>n' e'. 100 \<le> n' \<and> n' < 1000 \<longrightarrow>
        \<bar>of_int n * 10 powi (e - 2) - \<bar>x\<bar>\<bar> \<le> \<bar>of_int n' * 10 powi (e' - 2) - \<bar>x\<bar>\<bar> \<and>
        (\<bar>of_int n' * 10 powi (e' - 2) - \<bar>x\<bar>\<bar> = \<bar>of_int n * 10 powi (e - 2) - \<bar>x\<bar>\<bar>
           \<longrightarrow> of_int n' * (10::rat) powi (e' - 2) \<le> of_int n * 10 powi (e - 2)))"
proof -
  define a where "a = \<bar>x\<bar>"
  define e0 where "e0 = ilog 10 a"
  define u :: rat where "u = 10 powi (e0 - 2)"
  define t where "t = a / u"
  define n0 where "n0 = \<lfloor>t + 1 / 2\<rfloor>"
  have a: "0 < a" using assms by (simp add: a_def)
  have u: "0 < u" by (simp add: u_def zero_less_power_int)
  have p0: "(10::rat) powi e0 = 100 * u"
    using power_int_add[of "10::rat" "e0 - 2" 2] by (simp add: u_def)
  have p1: "(10::rat) powi (e0 + 1) = 1000 * u"
    using power_int_add[of "10::rat" "e0 - 2" 3] by (simp add: u_def add.commute mult.commute)
  have pm: "(10::rat) powi (e0 - 1) = 10 * u"
    using power_int_add[of "10::rat" "e0 - 2" 1] by (simp add: u_def)
  have lo: "100 * u \<le> a" using ilog_lower[of 10 a] a by (simp add: e0_def[symmetric] p0)
  have hi: "a < 1000 * u" using ilog_upper[of 10 a] a by (simp add: e0_def[symmetric] p1)
  have au: "a = t * u" using u by (simp add: t_def)
  have t: "100 \<le> t" "t < 1000"
    using lo hi u by (simp_all add: t_def pos_le_divide_eq pos_divide_less_eq)
  have n0: "of_int n0 - 1 / 2 \<le> t" "t < of_int n0 + 1 / 2"
    unfolding n0_def by linarith+
  have n0_range: "100 \<le> n0" "n0 \<le> 1000"
    unfolding n0_def using t by linarith+
  define n where "n = (if n0 = 1000 then 100 else n0)"
  define e where "e = (if n0 = 1000 then e0 + 1 else e0)"
  have res: "toPrecision3 (Fin x) = Text_digits (x < 0) n e"
    using assms
    by (simp add: toPrecision3_def Let_def a_def[symmetric] e0_def[symmetric] u_def[symmetric]
        t_def[symmetric] n0_def[symmetric] n_def e_def)
  have n_range: "100 \<le> n" "n < 1000" using n0_range by (simp_all add: n_def)
  have d: "of_int n * 10 powi (e - 2) = of_int n0 * u"
    by (simp add: n_def e_def pm u_def)
  have best: "\<bar>of_int n0 * u - a\<bar> \<le> \<bar>of_int n' * 10 powi (e' - 2) - a\<bar> \<and>
      (\<bar>of_int n' * 10 powi (e' - 2) - a\<bar> = \<bar>of_int n0 * u - a\<bar>
         \<longrightarrow> of_int n' * 10 powi (e' - 2) \<le> of_int n0 * u)"
    if n': "100 \<le> n'" "n' < 1000" for n' e'
  proof (cases "e0 \<le> e'")
    case True
    define m where "m = n' * 10 ^ nat (e' - e0)"
    have "(10::rat) powi (e' - 2) = 10 powi (e0 - 2) * 10 powi (e' - e0)"
      using power_int_add[of "10::rat" "e0 - 2" "e' - e0"] by simp
    also have "(10::rat) powi (e' - e0) = 10 ^ nat (e' - e0)"
      using True by (simp add: power_int_def)
    finally have c: "of_int n' * 10 powi (e' - 2) = of_int m * u"
      by (simp add: m_def u_def)
    have abs_m: "\<bar>of_int k * u - a\<bar> = u * \<bar>of_int k - t\<bar>" for k
    proof -
      have "of_int k * u - a = u * (of_int k - t)" by (simp add: au algebra_simps)
      then show ?thesis using u by (simp add: abs_mult)
    qed
    have le: "\<bar>of_int n0 - t\<bar> \<le> \<bar>of_int m - t\<bar>"
      using n0 by (rule nearest_multiple)
    have tie: "m \<le> n0" if "\<bar>of_int m - t\<bar> = \<bar>of_int n0 - t\<bar>"
      using n0 that by (rule nearest_multiple)
    have "\<bar>of_int n0 * u - a\<bar> \<le> \<bar>of_int m * u - a\<bar>"
      unfolding abs_m using le u by simp
    moreover have "of_int m * u \<le> of_int n0 * u" if "\<bar>of_int m * u - a\<bar> = \<bar>of_int n0 * u - a\<bar>"
    proof -
      have "\<bar>of_int m - t\<bar> = \<bar>of_int n0 - t\<bar>" using that u unfolding abs_m by simp
      then have "m \<le> n0" by (rule tie)
      then show ?thesis using u by simp
    qed
    ultimately show ?thesis unfolding c by blast
  next
    case False
    then have "e' - 2 \<le> e0 - 3" by simp
    then have "(10::rat) powi (e' - 2) \<le> 10 powi (e0 - 3)"
      by (intro power_int_increasing) simp_all
    also have "(10::rat) powi (e0 - 3) = u / 10"
      using power_int_add[of "10::rat" "e0 - 3" 1] by (simp add: u_def)
    finally have small: "(10::rat) powi (e' - 2) \<le> u / 10" .
    have pos: "0 < (10::rat) powi (e' - 2)" by (simp add: zero_less_power_int)
    have "(of_int n' :: rat) \<le> 999" using n'(2) by simp
    then have "of_int n' * (10::rat) powi (e' - 2) \<le> 999 * 10 powi (e' - 2)"
      using pos by simp
    also have "\<dots> \<le> 999 * (u / 10)" using small by simp
    finally have c: "of_int n' * 10 powi (e' - 2) \<le> 999 / 10 * u" by simp
    define cv where "cv = of_int n' * (10::rat) powi (e' - 2)"
    define dv where "dv = of_int n0 * u"
    have c': "cv \<le> 999 / 10 * u" using c by (simp add: cv_def)
    have "100 * u \<le> of_int n0 * u"
      using n0_range(1) u by (intro mult_right_mono) simp_all
    then have d_lo: "100 * u \<le> dv" by (simp add: dv_def)
    have "(of_int n0 - 1 / 2) * u \<le> t * u"
      using n0(1) u by (intro mult_right_mono) simp_all
    then have near1: "dv - u / 2 \<le> a"
      unfolding au dv_def by (simp add: algebra_simps)
    have "t * u < (of_int n0 + 1 / 2) * u"
      using n0(2) u by (intro mult_strict_right_mono)
    then have near2: "a < dv + u / 2"
      unfolding au dv_def by (simp add: algebra_simps)
    have "\<bar>dv - a\<bar> \<le> \<bar>cv - a\<bar> \<and> (\<bar>cv - a\<bar> = \<bar>dv - a\<bar> \<longrightarrow> cv \<le> dv)"
    proof (cases "dv \<le> a")
      case True
      then show ?thesis using c' d_lo lo u by linarith
    next
      case gt: False
      then have "100 * u < of_int n0 * u" using lo by (simp add: dv_def)
      then have "(100::rat) < of_int n0" using u by simp
      then have "101 \<le> n0" by linarith
      then have "(101::rat) \<le> of_int n0" by simp
      then have "101 * u \<le> of_int n0 * u"
        using u by (intro mult_right_mono) simp_all
      then have "101 * u \<le> dv" by (simp add: dv_def)
      then show ?thesis using c' near1 near2 gt u by linarith
    qed
    then show ?thesis unfolding cv_def dv_def .
  qed
  have "toPrecision3 (Fin x) = Text_digits (x < 0) n e \<and> 100 \<le> n \<and> n < 1000 \<and>
     (\<forall>n' e'. 100 \<le> n' \<and> n' < 1000 \<longrightarrow>
        \<bar>of_int n * 10 powi (e - 2) - \<bar>x\<bar>\<bar> \<le> \<bar>of_int n' * 10 powi (e' - 2) - \<bar>x\<bar>\<bar> \<and>
        (\<bar>of_int n' * 10 powi (e' - 2) - \<bar>x\<bar>\<bar> = \<bar>of_int n * 10 powi (e - 2) - \<bar>x\<bar>\<bar>
           \<longrightarrow> of_int n' * (10::rat) powi (e' - 2) \<le> of_int n * 10 powi (e - 2)))"
    using res n_range best unfolding d a_def by simp
  then show ?thesis by blast
qed

lemma parseFloat_number_not_NZero [simp]: "parseFloat_number q \<noteq> NZero"
  by (simp add: parseFloat_number_def)

lemma inside_ratio_finite:
  assumes "inside s (ratio a b)"
  shows "\<exists>x. parseFloat_number (js_div (ToNumber a) (ToNumber b)) = Fin x"
proof (cases "parseFloat_number (js_div (ToNumber a) (ToNumber b))")
  case NaN
  then have "ratio a b = NaN" by (simp add: ratio_def toPrecision3_def parseFloat_def)
  then show ?thesis using assms by simp
next
  case PInf
  then have "ratio a b = PInf" by (simp add: ratio_def toPrecision3_def parseFloat_def inf_def)
  then show ?thesis using assms by simp
next
  case NInf
  then have "ratio a b = NInf" by (simp add: ratio_def toPrecision3_def parseFloat_def inf_def)
  then show ?thesis using assms by simp
next
  case NZero
  then show ?thesis by simp
next
  case (Fin x)
  then show ?thesis by simp
qed

lemma parseFloat_toPrecision3_zero: "parseFloat (toPrecision3 (Fin 0)) = Fin 0"
  by (simp add: toPrecision3_def parseFloat_def fl_def zero_def)

lemma scenario_emitted:
  "emitted bounds_1_2
     (final (processSet rt (Val [Fin 10, Fin 20]) (Val [Fin 5, Fin 18]) ''set1'' eventId bounds_1_2))
   = [(confirm eventId ''set1'' 1 double_1_11, uuid rt 0)]"
  by (simp add: emitted_def final_def processSet_def upt_rec element_def ratio_10_5 ratio_20_18
      bounds_1_2_def new_Client_def send_def Let_def double_1_11_def)

text \<open>
  C2, as amended. The ratio carried by a \<open>confirm\<close> command that \<open>_processSet\<close> sends for
  index \<open>i\<close> is the quotient of \<open>primary[i]\<close> by \<open>reference[i]\<close> printed by
  \<open>toPrecision(3)\<close> and read back by \<open>parseFloat\<close>: the quotient is finite, and unless it
  is zero the ratio is the double nearest to the decimal with three significant digits
  that is closest to the quotient, a tie between two such decimals going to the one of
  larger magnitude (away from zero). It is not a rounding to three decimal places. In
  the scenario with the bounds \<open>(1.0, 2.0)\<close>, \<open>set1 = [10, 20]\<close> and \<open>set2 = [5, 18]\<close>,
  \<open>set1\<close> as primary sends nothing for index 0 and exactly one command, for index 1, with
  the ratio \<open>1.11\<close>.
\<close>

theorem confirmed_ratio_is_rounded_to_three_significant_digits:
  assumes "(confirm eventId setId i dv, r) \<in>
      set (emitted s (final (processSet rt (Val primary) (Val reference) setId eventId s)))"
  shows "i < length primary \<and> i < length reference \<and>
     dv = parseFloat (toPrecision3 (parseFloat_number (js_div (primary ! i) (reference ! i)))) \<and>
     (\<exists>x. parseFloat_number (js_div (primary ! i) (reference ! i)) = Fin x \<and>
        (x = 0 \<longrightarrow> dv = Fin 0) \<and>
        (x \<noteq> 0 \<longrightarrow>
           (\<exists>n e. 100 \<le> n \<and> n < 1000 \<and> dv = fl (x < 0) (of_int n * 10 powi (e - 2)) \<and>
              (\<forall>n' e'. 100 \<le> n' \<and> n' < 1000 \<longrightarrow>
                 \<bar>of_int n * 10 powi (e - 2) - \<bar>x\<bar>\<bar> \<le> \<bar>of_int n' * 10 powi (e' - 2) - \<bar>x\<bar>\<bar> \<and>
                 (\<bar>of_int n' * 10 powi (e' - 2) - \<bar>x\<bar>\<bar> = \<bar>of_int n * 10 powi (e - 2) - \<bar>x\<bar>\<bar>
                    \<longrightarrow> of_int n' * (10::rat) powi (e' - 2) \<le> of_int n * 10 powi (e - 2)))))) \<and>
     map fst (emitted bounds_1_2
        (final (processSet rt (Val [Fin 10, Fin 20]) (Val [Fin 5, Fin 18]) ''set1'' eventId
           bounds_1_2)))
       = [confirm eventId ''set1'' 1 double_1_11]"
proof -
  let ?q = "qualifying s primary reference [0..<length primary]"
  from processSet_arrays[of rt primary reference setId eventId s] obtain s' where s':
    "processSet rt (Val primary) (Val reference) setId eventId s = Inr s'"
    "sent (effects s') = sent (effects s) @ confirms rt eventId setId primary reference ?q (uuid_calls s)"
    by blast
  have em: "emitted s (final (processSet rt (Val primary) (Val reference) setId eventId s))
      = confirms rt eventId setId primary reference ?q (uuid_calls s)"
    using emittedI[OF s'(2)] by (simp add: s'(1) final_def)
  from assms obtain k where k: "k \<in> set ?q"
    "confirm eventId setId i dv = confirm eventId setId k (ratio (element primary k) (element reference k))"
    unfolding em by (blast dest: in_confirms)
  then have i: "i \<in> set ?q" and dv: "dv = ratio (element primary i) (element reference i)"
    by simp_all
  from i have lp: "i < length primary" and ins: "inside s (ratio (element primary i) (element reference i))"
    by (simp_all add: qualifying_def)
  have lr: "i < length reference"
  proof (rule ccontr)
    assume "\<not> i < length reference"
    then have "element reference i = Undefined" by (simp add: element_def)
    then show False using ins by simp
  qed
  have el: "element primary i = Val (primary ! i)" "element reference i = Val (reference ! i)"
    using lp lr by (simp_all add: element_def)
  define q where "q = parseFloat_number (js_div (primary ! i) (reference ! i))"
  have dvq: "dv = parseFloat (toPrecision3 q)"
    by (simp add: dv el ratio_def q_def)
  from inside_ratio_finite[OF ins] obtain x where x: "q = Fin x"
    by (auto simp: el q_def)
  have zero: "dv = Fin 0" if "x = 0"
    using that by (simp add: dvq x parseFloat_toPrecision3_zero)
  have digits: "\<exists>n e. 100 \<le> n \<and> n < 1000 \<and> dv = fl (x < 0) (of_int n * 10 powi (e - 2)) \<and>
      (\<forall>n' e'. 100 \<le> n' \<and> n' < 1000 \<longrightarrow>
         \<bar>of_int n * 10 powi (e - 2) - \<bar>x\<bar>\<bar> \<le> \<bar>of_int n' * 10 powi (e' - 2) - \<bar>x\<bar>\<bar> \<and>
         (\<bar>of_int n' * 10 powi (e' - 2) - \<bar>x\<bar>\<bar> = \<bar>of_int n * 10 powi (e - 2) - \<bar>x\<bar>\<bar>
            \<longrightarrow> of_int n' * (10::rat) powi (e' - 2) \<le> of_int n * 10 powi (e - 2)))"
    if "x \<noteq> 0"
  proof -
    from toPrecision3_nearest[OF that] obtain n e where ne:
      "toPrecision3 (Fin x) = Text_digits (x < 0) n e" "100 \<le> n" "n < 1000"
      "\<forall>n' e'. 100 \<le> n' \<and> n' < 1000 \<longrightarrow>
         \<bar>of_int n * 10 powi (e - 2) - \<bar>x\<bar>\<bar> \<le> \<bar>of_int n' * 10 powi (e' - 2) - \<bar>x\<bar>\<bar> \<and>
         (\<bar>of_int n' * 10 powi (e' - 2) - \<bar>x\<bar>\<bar> = \<bar>of_int n * 10 powi (e - 2) - \<bar>x\<bar>\<bar>
            \<longrightarrow> of_int n' * (10::rat) powi (e' - 2) \<le> of_int n * 10 powi (e - 2))"
      by blast
    have "dv = fl (x < 0) (of_int n * 10 powi (e - 2))"
      by (simp add: dvq x ne(1) parseFloat_def)
    then show ?thesis using ne(2,3,4) by blast
  qed
  have scen: "map fst (emitted bounds_1_2
        (final (processSet rt (Val [Fin 10, Fin 20]) (Val [Fin 5, Fin 18]) ''set1'' eventId
           bounds_1_2)))
       = [confirm eventId ''set1'' 1 double_1_11]"
    by (simp add: scenario_emitted)
  have "\<exists>x. parseFloat_number (js_div (primary ! i) (reference ! i)) = Fin x \<and>
        (x = 0 \<longrightarrow> dv = Fin 0) \<and>
        (x \<noteq> 0 \<longrightarrow>
           (\<exists>n e. 100 \<le> n \<and> n < 1000 \<and> dv = fl (x < 0) (of_int n * 10 powi (e - 2)) \<and>
              (\<forall>n' e'. 100 \<le> n' \<and> n' < 1000 \<longrightarrow>
                 \<bar>of_int n * 10 powi (e - 2) - \<bar>x\<bar>\<bar> \<le> \<bar>of_int n' * 10 powi (e' - 2) - \<bar>x\<bar>\<bar> \<and>
                 (\<bar>of_int n' * 10 powi (e' - 2) - \<bar>x\<bar>\<bar> = \<bar>of_int n * 10 powi (e - 2) - \<bar>x\<bar>\<bar>
                    \<longrightarrow> of_int n' * (10::rat) powi (e' - 2) \<le> of_int n * 10 powi (e - 2)))))"
    using x zero digits unfolding q_def by blast
  then show ?thesis
    using lp lr dvq scen unfolding q_def by blast
qed

text \<open>The command sent in the scenario: \<open>20 / 18\<close> is confirmed as \<open>111 * 10^(-2)\<close>.\<close>

theorem confirmed_ratio_is_rounded_to_three_significant_digits_witness:
  "(confirm (Event ''e1'') ''set1'' 1 double_1_11, uuid demo 0) \<in>
      set (emitted bounds_1_2
        (final (processSet demo (Val [Fin 10, Fin 20]) (Val [Fin 5, Fin 18]) ''set1''
           (Event ''e1'') bounds_1_2))) \<and>
   double_1_11 =
     parseFloat (toPrecision3 (parseFloat_number (js_div ([Fin 10, Fin 20] ! 1) ([Fin 5, Fin 18] ! 1)))) \<and>
   double_1_11 = fl False (of_int 111 * 10 powi (0 - 2))"
proof -
  have h: "(confirm (Event ''e1'') ''set1'' 1 double_1_11, uuid demo 0) \<in>
      set (emitted bounds_1_2
        (final (processSet demo (Val [Fin 10, Fin 20]) (Val [Fin 5, Fin 18]) ''set1''
           (Event ''e1'') bounds_1_2)))"
    by (simp add: scenario_emitted)
  have "double_1_11 = fl False (of_int 111 * 10 powi (0 - 2))"
    using fl_1_11 by simp
  then show ?thesis
    using h confirmed_ratio_is_rounded_to_three_significant_digits[OF h] by blast
qed

text \<open>
  Against the statement before its amendment: \<open>20 / 18\<close> rounded to three decimal places
  is \<open>1.111\<close>; the client computes \<open>1.11\<close>, and that is the ratio of the one command it
  sends in the scenario.
\<close>

theorem ratio_is_not_rounded_to_three_decimals:
  "ratio (Val (Fin 20)) (Val (Fin 18)) = double_1_11 \<and>
   fl False (spec_round_3_decimals (20 / 18)) = double_1_111 \<and>
   double_1_11 \<noteq> double_1_111 \<and>
   map fst (emitted bounds_1_2
      (final (processSet demo (Val [Fin 10, Fin 20]) (Val [Fin 5, Fin 18]) ''set1''
         (Event ''e1'') bounds_1_2)))
     = [confirm (Event ''e1'') ''set1'' 1 double_1_11] \<and>
   map fst (emitted bounds_1_2
      (final (processSet demo (Val [Fin 10, Fin 20]) (Val [Fin 5, Fin 18]) ''set1''
         (Event ''e1'') bounds_1_2)))
     \<noteq> [confirm (Event ''e1'') ''set1'' 1 double_1_111]"
proof -
  have r3: "spec_round_3_decimals (20 / 18) = 1111 / 1000"
  proof -
    have "\<lfloor>(10000 / 9 + 1 / 2 :: rat)\<rfloor> = 1111" by (rule floor_unique) simp_all
    then show ?thesis by (simp add: spec_round_3_decimals_def)
  qed
  have c2: "fl False (spec_round_3_decimals (20 / 18)) = double_1_111"
    unfolding r3 by (rule fl_1_111)
  have c3: "double_1_11 \<noteq> double_1_111"
    by (simp add: double_1_11_def double_1_111_def)
  have c4: "map fst (emitted bounds_1_2
      (final (processSet demo (Val [Fin 10, Fin 20]) (Val [Fin 5, Fin 18]) ''set1''
         (Event ''e1'') bounds_1_2)))
     = [confirm (Event ''e1'') ''set1'' 1 double_1_11]"
    by (simp add: scenario_emitted)
  have c5: "[confirm (Event ''e1'') ''set1'' 1 double_1_11]
     \<noteq> [confirm (Event ''e1'') ''set1'' 1 double_1_111]"
    using c3 by simp
  show ?thesis
    using ratio_20_18 c2 c3 c4 c5 by (simp only: simp_thms)
qed

end
